theory Spec2Isabelle
  imports Main "HOL-Library.Word"
begin

section \<open>Strings, paths and the names of the cleanup sequence files\<close>

text \<open>
  The custom action DLL \<^verbatim>\<open>openvpnmsica.c\<close> plans operation sequences in an immediate
  custom action (\<^verbatim>\<open>EvaluateTAPInterfaces\<close>) and runs them in deferred ones
  (\<^verbatim>\<open>ProcessDeferredAction\<close>). A \<^verbatim>\<open>TCHAR\<close> string is a \<^typ>\<open>string\<close>; a pointer into
  a string is the offset it points at. The initialisation of COM, the session handle
  kept in thread-local storage, the messages written to the log and the release of
  memory and handles do not change what the custom actions return or leave behind, and
  are left out.
\<close>

definition MAX_PATH :: nat where
  "MAX_PATH = 260"

definition MSICA_CLEANUP_ACTION_COMMIT :: nat where
  "MSICA_CLEANUP_ACTION_COMMIT = 0"

definition MSICA_CLEANUP_ACTION_ROLLBACK :: nat where
  "MSICA_CLEANUP_ACTION_ROLLBACK = 1"

definition MSICA_CLEANUP_ACTION_COUNT :: nat where
  "MSICA_CLEANUP_ACTION_COUNT = 2"

text \<open>
  The table \<^verbatim>\<open>openvpnmsica_cleanup_action_seqs\<close>: for each cleanup action its \<^verbatim>\<open>szName\<close>
  and its \<^verbatim>\<open>szSuffix\<close>, indexed by \<^verbatim>\<open>MSICA_CLEANUP_ACTION_COMMIT\<close> and
  \<^verbatim>\<open>MSICA_CLEANUP_ACTION_ROLLBACK\<close>.
\<close>

definition openvpnmsica_cleanup_action_seqs :: "(string \<times> string) list" where
  "openvpnmsica_cleanup_action_seqs = [(''Commit'', ''cm''), (''Rollback'', ''rb'')]"

definition szName :: "nat \<Rightarrow> string" where
  "szName i = fst (openvpnmsica_cleanup_action_seqs ! i)"

definition szSuffix :: "nat \<Rightarrow> string" where
  "szSuffix i = snd (openvpnmsica_cleanup_action_seqs ! i)"

text \<open>
  \<^verbatim>\<open>PathFindExtension\<close> of the shell API, as its documentation describes it: the result
  points at the last dot of the path that no backslash and no space follows, and at the
  terminating zero when there is no such dot. \<open>find_ext\<close> scans the path once, from the
  left, and keeps the offset of the candidate dot.
\<close>

fun find_ext :: "string \<Rightarrow> nat \<Rightarrow> nat option \<Rightarrow> nat option" where
  "find_ext [] i lastpoint = lastpoint"
| "find_ext (c # cs) i lastpoint =
     find_ext cs (Suc i)
       (if c = CHR 0x5C \<or> c = CHR '' '' then None
        else if c = CHR ''.'' then Some i
        else lastpoint)"

definition PathFindExtension :: "string \<Rightarrow> nat" where
  "PathFindExtension szPath =
     (case find_ext szPath 0 None of None \<Rightarrow> length szPath | Some i \<Rightarrow> i)"

text \<open>
  \<^verbatim>\<open>_stprintf_s(buffer, count, ...)\<close>: the formatted text and its terminator must fit
  into \<open>count\<close> characters. When they do not, the C runtime calls its invalid
  parameter handler and the custom action does not go on: \<open>None\<close>.
\<close>

definition stprintf_s :: "nat \<Rightarrow> string \<Rightarrow> string option" where
  "stprintf_s count text = (if length text < count then Some text else None)"

text \<open>
  The format \<^verbatim>\<open>"%.*s-%.2s%s"\<close> with the arguments
  \<^verbatim>\<open>(int)(szExtension - szFilename), szFilename, szSuffix, szExtension\<close>.
\<close>

definition format_filename_ex :: "string \<Rightarrow> nat \<Rightarrow> string \<Rightarrow> string" where
  "format_filename_ex szFilename szExtension suffix =
     take szExtension szFilename @ ''-'' @ take 2 suffix @ drop szExtension szFilename"

text \<open>
  The name of the cleanup sequence file of action \<open>i\<close> as
  \<^verbatim>\<open>openvpnmsica_setup_sequence_filename\<close> computes it while planning (lines 115 to 129);
  \<^verbatim>\<open>szFilenameEx\<close> has \<^verbatim>\<open>MAX_PATH + 1 + 2 + 1\<close> characters.
\<close>

definition setup_filename_ex :: "string \<Rightarrow> nat \<Rightarrow> string option" where
  "setup_filename_ex szFilename i =
     (let szExtension = PathFindExtension szFilename
      in stprintf_s (MAX_PATH + 1 + 2 + 1)
           (format_filename_ex szFilename szExtension (szSuffix i)))"

text \<open>
  The same name as \<^verbatim>\<open>ProcessDeferredAction\<close> computes it from the sequence filename it
  was handed (lines 589 to 598, and again at 611 and 654).
\<close>

definition deferred_filename_ex :: "string \<Rightarrow> nat \<Rightarrow> string option" where
  "deferred_filename_ex szSeqFilename i =
     (let szExtension = PathFindExtension szSeqFilename
      in stprintf_s (MAX_PATH + 1 + 2 + 1)
           (format_filename_ex szSeqFilename szExtension (szSuffix i)))"

text \<open>
  The naming rule in the words of the specification: the 2-character phase suffix is
  inserted before the file extension of the base path.
\<close>

definition spec_insert_suffix :: "string \<Rightarrow> string \<Rightarrow> string" where
  "spec_insert_suffix base suffix =
     take (PathFindExtension base) base @ suffix @ drop (PathFindExtension base) base"

section \<open>Result codes and states of the Windows Installer\<close>

text \<open>
  \<^verbatim>\<open>DWORD\<close> and \<^verbatim>\<open>UINT\<close> are 32-bit words. The constants are those of the Windows headers
  \<^verbatim>\<open>winerror.h\<close>, \<^verbatim>\<open>msi.h\<close>, \<^verbatim>\<open>msiquery.h\<close> and \<^verbatim>\<open>winuser.h\<close>.
\<close>

type_synonym DWORD = "32 word"

type_synonym bytes = "8 word list"

definition ERROR_SUCCESS :: DWORD where
  "ERROR_SUCCESS = 0"

definition ERROR_FILE_NOT_FOUND :: DWORD where
  "ERROR_FILE_NOT_FOUND = 2"

definition ERROR_PATH_NOT_FOUND :: DWORD where
  "ERROR_PATH_NOT_FOUND = 3"

definition ERROR_INVALID_HANDLE :: DWORD where
  "ERROR_INVALID_HANDLE = 6"

definition ERROR_NO_MORE_ITEMS :: DWORD where
  "ERROR_NO_MORE_ITEMS = 259"

definition ERROR_INSTALL_USEREXIT :: DWORD where
  "ERROR_INSTALL_USEREXIT = 1602"

definition ERROR_INSTALL_FAILURE :: DWORD where
  "ERROR_INSTALL_FAILURE = 1603"

definition ERROR_INVALID_FIELD :: DWORD where
  "ERROR_INVALID_FIELD = 1616"

definition INSTALLSTATE_UNKNOWN :: int where
  "INSTALLSTATE_UNKNOWN = - 1"

definition INSTALLSTATE_BROKEN :: int where
  "INSTALLSTATE_BROKEN = 0"

definition INSTALLSTATE_ADVERTISED :: int where
  "INSTALLSTATE_ADVERTISED = 1"

definition INSTALLSTATE_ABSENT :: int where
  "INSTALLSTATE_ABSENT = 2"

definition INSTALLSTATE_LOCAL :: int where
  "INSTALLSTATE_LOCAL = 3"

definition IDCANCEL :: int where
  "IDCANCEL = 2"

datatype MSICONDITION =
    MSICONDITION_FALSE
  | MSICONDITION_TRUE
  | MSICONDITION_NONE
  | MSICONDITION_ERROR

definition MSICA_INTERFACE_TICK_SIZE :: nat where
  "MSICA_INTERFACE_TICK_SIZE = 16 * 1024"

section \<open>Operations, sequences and sessions\<close>

text \<open>
  Modelled from the spec: the operation sequences of \<^verbatim>\<open>msica_op.h\<close>, which is not among
  the sources. An operation has a kind, a progress weight (ticks) and a boolean or a
  text payload; a sequence is an ordered list that grows at its tail. The constructors
  stand for \<^verbatim>\<open>msica_op_create_bool\<close> and \<^verbatim>\<open>msica_op_create_string\<close> (their \<^verbatim>\<open>next\<close>
  argument is always \<^verbatim>\<open>NULL\<close> here and is left out).
\<close>

datatype msica_op_type =
    msica_op_rollback_enable
  | msica_op_tap_interface_create
  | msica_op_tap_interface_delete_by_name
  | msica_op_file_delete

datatype msica_op =
    msica_op_create_bool msica_op_type nat bool
  | msica_op_create_string msica_op_type nat string

type_synonym msica_op_seq = "msica_op list"

definition msica_op_seq_add_tail :: "msica_op_seq \<Rightarrow> msica_op \<Rightarrow> msica_op_seq" where
  "msica_op_seq_add_tail seq op = seq @ [op]"

text \<open>
  Modelled from the spec: \<^verbatim>\<open>struct msica_session\<close> and \<^verbatim>\<open>openvpnmsica_session_init\<close>,
  which are not among the sources. A session holds the continue-on-error flag, the
  rollback-enabled flag and the array \<^verbatim>\<open>seq_cleanup\<close> of the two cleanup sequences, which
  start empty. The array is a function of the index.
\<close>

record msica_session =
  continue_on_error :: bool
  rollback_enabled :: bool
  seq_cleanup :: "nat \<Rightarrow> msica_op_seq"

definition openvpnmsica_session_init :: "bool \<Rightarrow> bool \<Rightarrow> msica_session" where
  "openvpnmsica_session_init coe rb =
     \<lparr>continue_on_error = coe, rollback_enabled = rb, seq_cleanup = (\<lambda>i. [])\<rparr>"

section \<open>The file system, the installer and the calls made\<close>

text \<open>
  What the custom actions act on: the files (a path has contents or does not exist), the
  installer properties set so far, the devices and whatever else the operation handlers
  touch (\<open>devices\<close>, left open), and the list of the calls made so far, oldest first.
\<close>

datatype call =
    Call_CreateFile string
  | Call_DeleteFile string
  | Call_GetTempFileName string string
  | Call_MsiSetProperty string string
  | Call_seq_load string
  | Call_seq_save string msica_op_seq
  | Call_seq_process msica_op_seq bool

record 'x world =
  files :: "string \<rightharpoonup> bytes"
  properties :: "string \<rightharpoonup> string"
  devices :: 'x
  calls :: "call list"

text \<open>
  What is not decided by the sources: how the operating system and the installer answer,
  and the three functions of \<^verbatim>\<open>msica_op.c\<close> that load, save and run a sequence. They are
  parameters, and every theorem below holds for all of them.
  \<^item> An answer of type \<^typ>\<open>DWORD\<close> is \<open>ERROR_SUCCESS\<close> when the call succeeds and is
    what \<^verbatim>\<open>GetLastError\<close> gives (or the result code) when it fails.
  \<^item> \<open>CreateFile_error\<close> is the answer to creating a file and to opening a file that
    exists; \<open>CreateFile_missing\<close> is what \<^verbatim>\<open>GetLastError\<close> gives when a file that
    does not exist is opened (\<open>ERROR_FILE_NOT_FOUND\<close>, or \<open>ERROR_PATH_NOT_FOUND\<close> for
    an empty path or a missing directory, or another code).
  \<^item> \<open>GetTempPath_reply\<close> and \<open>GetTempFileName_reply\<close> also give the contents of
    the filename buffer after the call.
  \<^item> \<open>msica_op_seq_save\<close> gives the result and the bytes that ended up in the file.
\<close>

record 'x platform =
  CreateFile_error :: "string \<Rightarrow> DWORD"
  CreateFile_missing :: "string \<Rightarrow> DWORD"
  DeleteFile_fails :: "string \<Rightarrow> bool"
  GetTempPath_reply :: "DWORD \<times> string"
  GetTempFileName_reply :: "string \<Rightarrow> string \<Rightarrow> (string \<rightharpoonup> bytes) \<Rightarrow> DWORD \<times> string"
  MsiSetProperty_error :: "string \<Rightarrow> DWORD"
  msica_op_seq_load :: "bytes \<Rightarrow> DWORD \<times> msica_op_seq"
  msica_op_seq_save :: "msica_op_seq \<Rightarrow> string \<Rightarrow> DWORD \<times> bytes"
  msica_op_seq_process ::
    "msica_op_seq \<Rightarrow> msica_session \<Rightarrow> 'x world \<Rightarrow> DWORD \<times> msica_session \<times> 'x world"

definition log_call :: "call \<Rightarrow> 'x world \<Rightarrow> 'x world" where
  "log_call c w = w\<lparr>calls := calls w @ [c]\<rparr>"

text \<open>
  \<^verbatim>\<open>CreateFile\<close> with \<^verbatim>\<open>GENERIC_READ\<close> and \<^verbatim>\<open>OPEN_EXISTING\<close>: \<open>Inl\<close> is
  \<^verbatim>\<open>INVALID_HANDLE_VALUE\<close> with the value of \<^verbatim>\<open>GetLastError\<close>, which the platform
  gives, also for a file that does not exist; \<open>Inr\<close> is a handle, through which the
  contents of the file are read.
\<close>

definition CreateFile_existing ::
  "'x platform \<Rightarrow> string \<Rightarrow> 'x world \<Rightarrow> (DWORD + bytes) \<times> 'x world" where
  "CreateFile_existing plat path w =
     ((case files w path of
         None \<Rightarrow> Inl (CreateFile_missing plat path)
       | Some content \<Rightarrow>
           if CreateFile_error plat path \<noteq> ERROR_SUCCESS then Inl (CreateFile_error plat path)
           else Inr content),
      log_call (Call_CreateFile path) w)"

text \<open>
  \<^verbatim>\<open>CreateFile\<close> with \<^verbatim>\<open>GENERIC_WRITE\<close> and \<^verbatim>\<open>CREATE_ALWAYS\<close>: on success the file exists
  and is empty. The result is \<open>ERROR_SUCCESS\<close> for a handle and the value of
  \<^verbatim>\<open>GetLastError\<close> for \<^verbatim>\<open>INVALID_HANDLE_VALUE\<close>.
\<close>

definition CreateFile_always ::
  "'x platform \<Rightarrow> string \<Rightarrow> 'x world \<Rightarrow> DWORD \<times> 'x world" where
  "CreateFile_always plat path w =
     (let e = CreateFile_error plat path;
          w' = log_call (Call_CreateFile path) w
      in (e, if e = ERROR_SUCCESS then w'\<lparr>files := (files w')(path \<mapsto> [])\<rparr> else w'))"

definition DeleteFile :: "'x platform \<Rightarrow> string \<Rightarrow> 'x world \<Rightarrow> 'x world" where
  "DeleteFile plat path w =
     (let w' = log_call (Call_DeleteFile path) w
      in if DeleteFile_fails plat path then w' else w'\<lparr>files := (files w')(path := None)\<rparr>)"

definition MsiSetProperty ::
  "'x platform \<Rightarrow> string \<Rightarrow> string \<Rightarrow> 'x world \<Rightarrow> DWORD \<times> 'x world" where
  "MsiSetProperty plat name val w =
     (let e = MsiSetProperty_error plat name;
          w' = log_call (Call_MsiSetProperty name val) w
      in (e, if e = ERROR_SUCCESS then w'\<lparr>properties := (properties w')(name \<mapsto> val)\<rparr> else w'))"

text \<open>
  \<^verbatim>\<open>GetTempFileName(dir, prefix, 0, buffer)\<close>: on success the file named in the buffer has
  been created, empty.
\<close>

definition GetTempFileName ::
  "'x platform \<Rightarrow> string \<Rightarrow> string \<Rightarrow> 'x world \<Rightarrow> DWORD \<times> string \<times> 'x world" where
  "GetTempFileName plat dir prefix w =
     (case GetTempFileName_reply plat dir prefix (files w) of (e, buffer) \<Rightarrow>
        let w' = log_call (Call_GetTempFileName dir prefix) w
        in (e, buffer, if e = ERROR_SUCCESS then w'\<lparr>files := (files w')(buffer \<mapsto> [])\<rparr> else w'))"

text \<open>
  \<^verbatim>\<open>msica_op_seq_save(seq, hSeqFile)\<close> followed by \<^verbatim>\<open>CloseHandle\<close>, for the handle of
  the file \<open>path\<close>.
\<close>

definition seq_save ::
  "'x platform \<Rightarrow> msica_op_seq \<Rightarrow> string \<Rightarrow> 'x world \<Rightarrow> DWORD \<times> 'x world" where
  "seq_save plat seq path w =
     (case msica_op_seq_save plat seq path of (e, content) \<Rightarrow>
        let w' = log_call (Call_seq_save path seq) w
        in (e, w'\<lparr>files := (files w')(path \<mapsto> content)\<rparr>))"

text \<open>
  \<^verbatim>\<open>msica_op_seq_process(seq, session)\<close>: the handlers change the session and the world
  as they please; the call itself is recorded with the sequence and the
  continue-on-error flag of the session it was given.
\<close>

definition seq_process ::
  "'x platform \<Rightarrow> msica_op_seq \<Rightarrow> msica_session \<Rightarrow> 'x world
     \<Rightarrow> DWORD \<times> msica_session \<times> 'x world" where
  "seq_process plat seq session w =
     (case msica_op_seq_process plat seq session w of (r, session', w') \<Rightarrow>
        (r, session', w'\<lparr>calls := calls w @ [Call_seq_process seq (continue_on_error session)]\<rparr>))"

section \<open>ProcessDeferredAction\<close>

text \<open>
  What the installer answers to \<^verbatim>\<open>ProcessDeferredAction\<close>: the two run modes asked with
  \<^verbatim>\<open>MsiGetMode\<close>, and the result and the text of \<^verbatim>\<open>msi_get_string\<close> for the property
  \<^verbatim>\<open>CustomActionData\<close>, which is the sequence filename.
\<close>

record deferred_install =
  MsiGetMode_COMMIT :: bool
  MsiGetMode_ROLLBACK :: bool
  CustomActionData :: "DWORD \<times> string"

definition cleanup_actions :: "nat list" where
  "cleanup_actions = [0 ..< MSICA_CLEANUP_ACTION_COUNT]"

text \<open>
  Lines 591 to 608: for each cleanup action \<open>i\<close>, an operation that deletes the cleanup
  file of \<open>i\<close> is added to the cleanup sequence of the other action
  (\<^verbatim>\<open>seq_cleanup[MSICA_CLEANUP_ACTION_COUNT - 1 - i]\<close>).
\<close>

fun add_file_delete_ops :: "string \<Rightarrow> nat list \<Rightarrow> msica_session \<Rightarrow> msica_session option" where
  "add_file_delete_ops szSeqFilename [] session = Some session"
| "add_file_delete_ops szSeqFilename (i # is) session =
     (case deferred_filename_ex szSeqFilename i of
        None \<Rightarrow> None
      | Some szFilenameEx \<Rightarrow>
          add_file_delete_ops szSeqFilename is
            (session\<lparr>seq_cleanup := (seq_cleanup session)
               (MSICA_CLEANUP_ACTION_COUNT - 1 - i :=
                  msica_op_seq_add_tail (seq_cleanup session (MSICA_CLEANUP_ACTION_COUNT - 1 - i))
                    (msica_op_create_string msica_op_file_delete 0 szFilenameEx))\<rparr>))"

text \<open>
  Lines 609 to 637: each cleanup sequence is saved to its file; the first failure ends
  the loop with its code in \<^verbatim>\<open>dwResultEx\<close>. After the last action \<^verbatim>\<open>dwResultEx\<close> is the
  result of the last save, which is \<open>ERROR_SUCCESS\<close>.
\<close>

fun save_cleanup_seqs ::
  "'x platform \<Rightarrow> string \<Rightarrow> nat list \<Rightarrow> msica_session \<Rightarrow> 'x world \<Rightarrow> (DWORD \<times> 'x world) option" where
  "save_cleanup_seqs plat szSeqFilename [] session w = Some (ERROR_SUCCESS, w)"
| "save_cleanup_seqs plat szSeqFilename (i # is) session w =
     (case deferred_filename_ex szSeqFilename i of
        None \<Rightarrow> None
      | Some szFilenameEx \<Rightarrow>
          (case CreateFile_always plat szFilenameEx w of (e, w1) \<Rightarrow>
             if e \<noteq> ERROR_SUCCESS then Some (e, w1)
             else (case seq_save plat (seq_cleanup session i) szFilenameEx w1 of (dwResultEx, w2) \<Rightarrow>
               if dwResultEx \<noteq> ERROR_SUCCESS then Some (dwResultEx, w2)
               else save_cleanup_seqs plat szSeqFilename is session w2)))"

text \<open>Lines 651 to 661: every cleanup file is deleted.\<close>

fun delete_cleanup_files ::
  "'x platform \<Rightarrow> string \<Rightarrow> nat list \<Rightarrow> 'x world \<Rightarrow> 'x world option" where
  "delete_cleanup_files plat szSeqFilename [] w = Some w"
| "delete_cleanup_files plat szSeqFilename (i # is) w =
     (case deferred_filename_ex szSeqFilename i of
        None \<Rightarrow> None
      | Some szFilenameEx \<Rightarrow>
          delete_cleanup_files plat szSeqFilename is (DeleteFile plat szFilenameEx w))"

text \<open>
  The label \<^verbatim>\<open>cleanup_session\<close> (lines 639 to 662): when the cleanup sequences were not
  saved, the rollback cleanup sequence is run at once, in a fresh session that continues
  on error, and the cleanup files are deleted. The result of that run is dropped.
\<close>

definition cleanup_session ::
  "'x platform \<Rightarrow> string \<Rightarrow> DWORD \<Rightarrow> msica_session \<Rightarrow> 'x world \<Rightarrow> 'x world option" where
  "cleanup_session plat szSeqFilename dwResultEx session w =
     (if dwResultEx \<noteq> ERROR_SUCCESS then
        (case seq_process plat (seq_cleanup session MSICA_CLEANUP_ACTION_ROLLBACK)
                (openvpnmsica_session_init True False) w of
           (r, session_cleanup, w1) \<Rightarrow> delete_cleanup_files plat szSeqFilename cleanup_actions w1)
      else Some w)"

text \<open>
  Lines 582 to 668, after the sequence has been run with result \<open>uiResult\<close>: what is done
  with the cleanup sequences, and the result of the custom action. \<^verbatim>\<open>dwResultEx\<close> is a
  variable of its own (\<^verbatim>\<open>Don't overwrite uiResult\<close>).
\<close>

definition save_or_cleanup ::
  "'x platform \<Rightarrow> bool \<Rightarrow> string \<Rightarrow> DWORD \<Rightarrow> msica_session \<Rightarrow> 'x world
     \<Rightarrow> (DWORD \<times> 'x world) option" where
  "save_or_cleanup plat bIsCleanup szSeqFilename uiResult session w =
     (if \<not> bIsCleanup then
        (case add_file_delete_ops szSeqFilename cleanup_actions session of
           None \<Rightarrow> None
         | Some session1 \<Rightarrow>
             (case save_cleanup_seqs plat szSeqFilename cleanup_actions session1 w of
                None \<Rightarrow> None
              | Some (dwResultEx, w1) \<Rightarrow>
                  (case cleanup_session plat szSeqFilename dwResultEx session1 w1 of
                     None \<Rightarrow> None
                   | Some w2 \<Rightarrow> Some (uiResult, w2))))
      else Some (ERROR_SUCCESS, w))"

text \<open>
  The custom action. \<open>None\<close>: the C runtime stopped it in \<^verbatim>\<open>_stprintf_s\<close>; otherwise
  the value returned and the world it leaves.
\<close>

definition ProcessDeferredAction ::
  "'x platform \<Rightarrow> deferred_install \<Rightarrow> 'x world \<Rightarrow> (DWORD \<times> 'x world) option" where
  "ProcessDeferredAction plat hInstall w =
     (let bIsCleanup = (MsiGetMode_COMMIT hInstall \<or> MsiGetMode_ROLLBACK hInstall)
      in case CustomActionData hInstall of (r0, szSeqFilename) \<Rightarrow>
        if r0 \<noteq> ERROR_SUCCESS then Some (r0, w)
        else (case CreateFile_existing plat szSeqFilename w of
            (Inl e, w1) \<Rightarrow>
              if e = ERROR_FILE_NOT_FOUND \<and> bIsCleanup then Some (ERROR_SUCCESS, w1)
              else Some (e, w1)
          | (Inr content, w1) \<Rightarrow>
              (case msica_op_seq_load plat content of (r1, seq) \<Rightarrow>
                 let w2 = log_call (Call_seq_load szSeqFilename) w1
                 in if r1 \<noteq> ERROR_SUCCESS then Some (r1, w2)
                 else (case seq_process plat seq (openvpnmsica_session_init bIsCleanup False) w2 of
                     (uiResult, session, w3) \<Rightarrow>
                       (case save_or_cleanup plat bIsCleanup szSeqFilename uiResult session w3 of
                          None \<Rightarrow> None
                        | Some (uiResult', w4) \<Rightarrow>
                            Some (uiResult', DeleteFile plat szSeqFilename w4))))))"

section \<open>EvaluateTAPInterfaces\<close>

text \<open>
  \<^verbatim>\<open>_ttoi\<close> and \<^verbatim>\<open>_totlower\<close> of the C runtime, as its documentation describes them:
  leading white space, an optional sign and decimal digits are read, anything after them
  is ignored, and a value out of the range of \<^verbatim>\<open>int\<close> gives its nearest bound.
\<close>

definition isspace :: "char \<Rightarrow> bool" where
  "isspace c = (c = CHR '' '' \<or> (9 \<le> (of_char c :: nat) \<and> (of_char c :: nat) \<le> 13))"

definition isdigit :: "char \<Rightarrow> bool" where
  "isdigit c = (48 \<le> (of_char c :: nat) \<and> (of_char c :: nat) \<le> 57)"

definition ttoi :: "string \<Rightarrow> int" where
  "ttoi s =
     (let t = dropWhile isspace s;
          negative = (case t of [] \<Rightarrow> False | c # r \<Rightarrow> c = CHR ''-'');
          u = (case t of [] \<Rightarrow> [] | c # r \<Rightarrow> if c = CHR ''-'' \<or> c = CHR ''+'' then r else t);
          n = foldl (\<lambda>a c. 10 * a + (int (of_char c) - 48)) 0 (takeWhile isdigit u)
      in if negative then max (- 2147483648) (- n) else min 2147483647 n)"

definition totlower :: "char \<Rightarrow> char" where
  "totlower c =
     (if 65 \<le> (of_char c :: nat) \<and> (of_char c :: nat) \<le> 90 then char_of (of_char c + (32::nat))
      else c)"

text \<open>
  What the installer answers while one row of the view is processed: the result of
  \<^verbatim>\<open>MsiViewFetch\<close>, the record fetched, and the reply to the progress message. Of a
  record, the result and the text of \<^verbatim>\<open>msi_get_record_string\<close> for the fields 4
  (\<^verbatim>\<open>Component_\<close>) and 3 (\<^verbatim>\<open>Condition\<close>), and of \<^verbatim>\<open>msi_format_field\<close> for the field 2
  (\<^verbatim>\<open>DisplayName\<close>).
\<close>

record view_record =
  field_Component :: "DWORD \<times> string"
  field_DisplayName :: "DWORD \<times> string"
  field_Condition :: "DWORD \<times> string"

record fetch =
  MsiViewFetch :: DWORD
  hRecord :: view_record
  MsiProcessMessage :: int

text \<open>
  What the installer answers to \<^verbatim>\<open>EvaluateTAPInterfaces\<close>: result and text of
  \<^verbatim>\<open>MsiGetProperty\<close> for \<^verbatim>\<open>RollbackDisabled\<close>, the handles (0 is no handle), the
  state of the table \<^verbatim>\<open>TAPInterface\<close>, the results of opening and executing the view,
  the fetches of the view in their order (after the last one \<^verbatim>\<open>MsiViewFetch\<close> gives
  \<open>ERROR_NO_MORE_ITEMS\<close>), the result and the states \<^verbatim>\<open>iInstalled\<close> and \<^verbatim>\<open>iAction\<close> of
  \<^verbatim>\<open>MsiGetComponentState\<close> for a component, and the value of a condition text.
\<close>

record planning_install =
  RollbackDisabled :: "DWORD \<times> string"
  MsiGetActiveDatabase :: nat
  MsiDatabaseIsTablePersistent :: MSICONDITION
  MsiDatabaseOpenView :: DWORD
  MsiViewExecute :: DWORD
  MsiCreateRecord :: nat
  view :: "fetch list"
  MsiGetComponentState :: "string \<Rightarrow> DWORD \<times> int \<times> int"
  MsiEvaluateCondition :: "string \<Rightarrow> MSICONDITION"

definition szActionNames :: "string list" where
  "szActionNames = [''InstallTAPInterfaces'', ''UninstallTAPInterfaces'']"

text \<open>Lines 279 to 285: the rollback enabled state.\<close>

definition enable_rollback :: "planning_install \<Rightarrow> bool" where
  "enable_rollback hInstall =
     (case RollbackDisabled hInstall of (r, szValue) \<Rightarrow>
        if r = ERROR_SUCCESS then
          (if ttoi szValue \<noteq> 0
              \<or> totlower (case szValue of [] \<Rightarrow> CHR 0x00 | c # cs \<Rightarrow> c) = CHR ''y''
           then False else True)
        else True)"

text \<open>
  Lines 275 to 294: the array \<^verbatim>\<open>exec_seq\<close>, one sequence for each action name, each
  starting with the rollback enabled state.
\<close>

definition exec_seq_init :: "bool \<Rightarrow> nat \<Rightarrow> msica_op_seq" where
  "exec_seq_init enable =
     fold (\<lambda>i exec_seq. exec_seq
             (i := msica_op_seq_add_tail (exec_seq i)
                     (msica_op_create_bool msica_op_rollback_enable 0 enable)))
       [0 ..< length szActionNames] (\<lambda>i. [])"

text \<open>
  Lines 436 to 443: the ticks of one interface are added to the progress bar; the
  installer may answer that the user cancelled.
\<close>

definition add_ticks :: "fetch \<Rightarrow> DWORD \<Rightarrow> DWORD" where
  "add_ticks f uiResult =
     (if MsiProcessMessage f = IDCANCEL then ERROR_INSTALL_USEREXIT else uiResult)"

text \<open>
  Lines 359 to 451, the body of the loop for one fetched record: the value
  \<^verbatim>\<open>uiResult\<close> has at the end of the body, and the array \<^verbatim>\<open>exec_seq\<close>.
\<close>

definition evaluate_record ::
  "planning_install \<Rightarrow> fetch \<Rightarrow> (nat \<Rightarrow> msica_op_seq) \<Rightarrow> DWORD \<times> (nat \<Rightarrow> msica_op_seq)" where
  "evaluate_record hInstall f exec_seq =
     (case field_Component (hRecord f) of (r4, szComponent) \<Rightarrow>
      if r4 \<noteq> ERROR_SUCCESS then (r4, exec_seq)
      else case MsiGetComponentState hInstall szComponent of (rs, iInstalled, iAction) \<Rightarrow>
      if rs \<noteq> ERROR_SUCCESS then (rs, exec_seq)
      else case field_DisplayName (hRecord f) of (r2, szDisplayName) \<Rightarrow>
      if r2 \<noteq> ERROR_SUCCESS then (r2, exec_seq)
      else if iAction > INSTALLSTATE_BROKEN then
        (if iAction \<ge> INSTALLSTATE_LOCAL then
           (case field_Condition (hRecord f) of (r3, szValue) \<Rightarrow>
            if r3 \<noteq> ERROR_SUCCESS then (r3, exec_seq)
            else case MsiEvaluateCondition hInstall szValue of
                MSICONDITION_FALSE \<Rightarrow> (r3, exec_seq)
              | MSICONDITION_ERROR \<Rightarrow> (ERROR_INVALID_FIELD, exec_seq)
              | _ \<Rightarrow>
                  (add_ticks f r3,
                   exec_seq(0 := msica_op_seq_add_tail (exec_seq 0)
                      (msica_op_create_string msica_op_tap_interface_create
                         MSICA_INTERFACE_TICK_SIZE szDisplayName))))
         else
           (add_ticks f r2,
            exec_seq(1 := msica_op_seq_add_tail (exec_seq 1)
               (msica_op_create_string msica_op_tap_interface_delete_by_name
                  MSICA_INTERFACE_TICK_SIZE szDisplayName))))
      else (r2, exec_seq))"

text \<open>
  Lines 343 to 452, the loop over the view: it ends with \<open>ERROR_SUCCESS\<close> when there
  are no more items, and with the first other result that is not \<open>ERROR_SUCCESS\<close>.
\<close>

fun fetch_loop ::
  "planning_install \<Rightarrow> fetch list \<Rightarrow> (nat \<Rightarrow> msica_op_seq) \<Rightarrow> DWORD \<times> (nat \<Rightarrow> msica_op_seq)" where
  "fetch_loop hInstall [] exec_seq = (ERROR_SUCCESS, exec_seq)"
| "fetch_loop hInstall (f # fs) exec_seq =
     (if MsiViewFetch f = ERROR_NO_MORE_ITEMS then (ERROR_SUCCESS, exec_seq)
      else if MsiViewFetch f \<noteq> ERROR_SUCCESS then (MsiViewFetch f, exec_seq)
      else case evaluate_record hInstall f exec_seq of (uiResult, exec_seq') \<Rightarrow>
        if uiResult \<noteq> ERROR_SUCCESS then (uiResult, exec_seq')
        else fetch_loop hInstall fs exec_seq')"

text \<open>
  Lines 118 to 139 of \<^verbatim>\<open>openvpnmsica_setup_sequence_filename\<close>: for each cleanup action
  the property named by the action name followed by \<^verbatim>\<open>szName\<close> is set to the name of
  the cleanup sequence file.
\<close>

fun set_cleanup_properties ::
  "'x platform \<Rightarrow> string \<Rightarrow> string \<Rightarrow> nat list \<Rightarrow> 'x world \<Rightarrow> (DWORD \<times> 'x world) option" where
  "set_cleanup_properties plat szProperty szFilename [] w = Some (ERROR_SUCCESS, w)"
| "set_cleanup_properties plat szProperty szFilename (i # is) w =
     (case setup_filename_ex szFilename i of
        None \<Rightarrow> None
      | Some szFilenameEx \<Rightarrow>
          (case MsiSetProperty plat (szProperty @ szName i) szFilenameEx w of (dwResult, w1) \<Rightarrow>
             if dwResult \<noteq> ERROR_SUCCESS then Some (dwResult, w1)
             else set_cleanup_properties plat szProperty szFilename is w1))"

text \<open>
  \<^verbatim>\<open>openvpnmsica_setup_sequence_filename\<close>: the result, the contents of the buffer
  \<^verbatim>\<open>szFilename\<close> at the return, and the world. The caller passes an array, so the test
  for \<^verbatim>\<open>NULL\<close> never holds.
\<close>

definition openvpnmsica_setup_sequence_filename ::
  "'x platform \<Rightarrow> string \<Rightarrow> 'x world \<Rightarrow> (DWORD \<times> string \<times> 'x world) option" where
  "openvpnmsica_setup_sequence_filename plat szProperty w =
     (case GetTempPath_reply plat of (e1, szFilename1) \<Rightarrow>
      if e1 \<noteq> ERROR_SUCCESS then Some (e1, szFilename1, w)
      else case GetTempFileName plat szFilename1 szProperty w of (e2, szFilename, w2) \<Rightarrow>
      if e2 \<noteq> ERROR_SUCCESS then Some (e2, szFilename, w2)
      else case MsiSetProperty plat szProperty szFilename w2 of (dwResult, w3) \<Rightarrow>
      if dwResult \<noteq> ERROR_SUCCESS then Some (dwResult, szFilename, w3)
      else case set_cleanup_properties plat szProperty szFilename cleanup_actions w3 of
          None \<Rightarrow> None
        | Some (dwResult', w4) \<Rightarrow> Some (dwResult', szFilename, w4))"

text \<open>
  Lines 462 to 485: the sequence files are written; the array \<^verbatim>\<open>szSeqFilename\<close> holds
  the names given so far.
\<close>

fun write_sequence_files ::
  "'x platform \<Rightarrow> nat list \<Rightarrow> (nat \<Rightarrow> msica_op_seq) \<Rightarrow> (nat \<Rightarrow> string) \<Rightarrow> 'x world
     \<Rightarrow> (DWORD \<times> (nat \<Rightarrow> string) \<times> 'x world) option" where
  "write_sequence_files plat [] exec_seq szSeqFilename w = Some (ERROR_SUCCESS, szSeqFilename, w)"
| "write_sequence_files plat (i # is) exec_seq szSeqFilename w =
     (case openvpnmsica_setup_sequence_filename plat (szActionNames ! i) w of
        None \<Rightarrow> None
      | Some (r, szFilename, w1) \<Rightarrow>
          let szSeqFilename' = szSeqFilename(i := szFilename)
          in if r \<noteq> ERROR_SUCCESS then Some (r, szSeqFilename', w1)
          else case CreateFile_always plat szFilename w1 of (e, w2) \<Rightarrow>
            if e \<noteq> ERROR_SUCCESS then Some (e, szSeqFilename', w2)
            else case seq_save plat (exec_seq i) szFilename w2 of (uiResult, w3) \<Rightarrow>
              if uiResult \<noteq> ERROR_SUCCESS then Some (uiResult, szSeqFilename', w3)
              else write_sequence_files plat is exec_seq szSeqFilename' w3)"

text \<open>Lines 493 to 495: the sequence files that were given a name are deleted.\<close>

fun delete_sequence_files ::
  "'x platform \<Rightarrow> nat list \<Rightarrow> (nat \<Rightarrow> string) \<Rightarrow> 'x world \<Rightarrow> 'x world" where
  "delete_sequence_files plat [] szSeqFilename w = w"
| "delete_sequence_files plat (i # is) szSeqFilename w =
     delete_sequence_files plat is szSeqFilename
       (if szSeqFilename i \<noteq> [] then DeleteFile plat (szSeqFilename i) w else w)"

text \<open>
  The custom action. \<open>None\<close>: the C runtime stopped it in \<^verbatim>\<open>_stprintf_s\<close>; otherwise
  the value returned and the world it leaves.
\<close>

definition EvaluateTAPInterfaces ::
  "'x platform \<Rightarrow> planning_install \<Rightarrow> 'x world \<Rightarrow> (DWORD \<times> 'x world) option" where
  "EvaluateTAPInterfaces plat hInstall w =
     (let exec_seq = exec_seq_init (enable_rollback hInstall)
      in if MsiGetActiveDatabase hInstall = 0 then Some (ERROR_INVALID_HANDLE, w)
      else if MsiDatabaseIsTablePersistent hInstall \<noteq> MSICONDITION_FALSE
              \<and> MsiDatabaseIsTablePersistent hInstall \<noteq> MSICONDITION_TRUE
        then Some (ERROR_SUCCESS, w)
      else if MsiDatabaseOpenView hInstall \<noteq> ERROR_SUCCESS
        then Some (MsiDatabaseOpenView hInstall, w)
      else if MsiViewExecute hInstall \<noteq> ERROR_SUCCESS
        then Some (MsiViewExecute hInstall, w)
      else if MsiCreateRecord hInstall = 0 then Some (ERROR_INVALID_HANDLE, w)
      else case fetch_loop hInstall (view hInstall) exec_seq of (uiResult, exec_seq') \<Rightarrow>
        if uiResult \<noteq> ERROR_SUCCESS then Some (uiResult, w)
        else case write_sequence_files plat [0 ..< length szActionNames] exec_seq'
                    (\<lambda>i. []) w of
            None \<Rightarrow> None
          | Some (uiResult', szSeqFilename, w1) \<Rightarrow>
              Some (uiResult',
                    if uiResult' \<noteq> ERROR_SUCCESS
                    then delete_sequence_files plat (rev [0 ..< length szActionNames])
                           szSeqFilename w1
                    else w1))"

section \<open>Notions used in the statements\<close>

text \<open>
  The name \<^verbatim>\<open>ProcessDeferredAction\<close> formats for the cleanup file of action \<open>i\<close>, the
  operation that deletes a file, and the result of persisting a sequence to a path: the
  error of \<^verbatim>\<open>CreateFile\<close> if it fails, the result of \<^verbatim>\<open>msica_op_seq_save\<close> otherwise.
\<close>

definition cleanup_filename :: "string \<Rightarrow> nat \<Rightarrow> string" where
  "cleanup_filename szSeqFilename i =
     format_filename_ex szSeqFilename (PathFindExtension szSeqFilename) (szSuffix i)"

definition file_delete_op :: "string \<Rightarrow> msica_op" where
  "file_delete_op path = msica_op_create_string msica_op_file_delete 0 path"

definition persist_error :: "'x platform \<Rightarrow> msica_op_seq \<Rightarrow> string \<Rightarrow> DWORD" where
  "persist_error plat seq path =
     (if CreateFile_error plat path \<noteq> ERROR_SUCCESS then CreateFile_error plat path
      else fst (msica_op_seq_save plat seq path))"

text \<open>
  The world \<^verbatim>\<open>msica_op_seq_process\<close> leaves when it is run on a sequence, in a session
  and a world.
\<close>

definition after_run ::
  "'x platform \<Rightarrow> msica_op_seq \<Rightarrow> msica_session \<Rightarrow> 'x world \<Rightarrow> 'x world" where
  "after_run plat seq session w = snd (snd (msica_op_seq_process plat seq session w))"

text \<open>
  A platform, a world and installer answers to run the custom actions on: creating the
  files \<open>t-rb.q\<close> and \<open>T/Uni1.tmp\<close> is denied; opening a file that does not exist
  gives \<open>ERROR_FILE_NOT_FOUND\<close>, and \<open>ERROR_PATH_NOT_FOUND\<close> for \<open>gone/t.q\<close>, whose
  directory does not exist;
  running a sequence adds an operation to the rollback cleanup sequence, and fails in a
  session that continues on error.
\<close>

definition ERROR_ACCESS_DENIED :: DWORD where
  "ERROR_ACCESS_DENIED = 5"

definition example_platform :: "unit platform" where
  "example_platform =
     \<lparr>CreateFile_error = (\<lambda>p. if p = ''t-rb.q'' \<or> p = ''T/Uni1.tmp''
                               then ERROR_ACCESS_DENIED else ERROR_SUCCESS),
      CreateFile_missing = (\<lambda>p. if p = ''gone/t.q''
                                 then ERROR_PATH_NOT_FOUND else ERROR_FILE_NOT_FOUND),
      DeleteFile_fails = (\<lambda>p. False),
      GetTempPath_reply = (ERROR_SUCCESS, ''T/''),
      GetTempFileName_reply = (\<lambda>dir prefix fs. (ERROR_SUCCESS, ''T/'' @ take 3 prefix @ ''1.tmp'')),
      MsiSetProperty_error = (\<lambda>name. ERROR_SUCCESS),
      msica_op_seq_load = (\<lambda>content.
         (ERROR_SUCCESS, [msica_op_create_string msica_op_tap_interface_create 16384 ''A''])),
      msica_op_seq_save = (\<lambda>seq path. (ERROR_SUCCESS, [])),
      msica_op_seq_process = (\<lambda>seq session w.
         (if continue_on_error session then ERROR_INSTALL_FAILURE else ERROR_SUCCESS,
          session\<lparr>seq_cleanup := (seq_cleanup session)
             (MSICA_CLEANUP_ACTION_ROLLBACK :=
                seq_cleanup session MSICA_CLEANUP_ACTION_ROLLBACK
                  @ [msica_op_create_string msica_op_tap_interface_delete_by_name 0 ''A''])\<rparr>,
          w))\<rparr>"

definition example_world :: "unit world" where
  "example_world =
     \<lparr>files = [''t.q'' \<mapsto> [], ''u.q'' \<mapsto> []], properties = Map.empty, devices = (), calls = []\<rparr>"

text \<open>
  The same platform, with devices that are the list of the runs of
  \<^verbatim>\<open>msica_op_seq_process\<close>: each run adds the sequence it was given and the
  continue-on-error flag of its session. In the world, the files \<open>t.q\<close> and \<open>u.q\<close>
  exist, and so does a file whose name has 261 characters.
\<close>

definition recording_platform :: "(msica_op_seq \<times> bool) list platform" where
  "recording_platform =
     \<lparr>CreateFile_error = (\<lambda>p. if p = ''t-rb.q'' \<or> p = ''T/Uni1.tmp''
                               then ERROR_ACCESS_DENIED else ERROR_SUCCESS),
      CreateFile_missing = (\<lambda>p. if p = ''gone/t.q''
                                 then ERROR_PATH_NOT_FOUND else ERROR_FILE_NOT_FOUND),
      DeleteFile_fails = (\<lambda>p. False),
      GetTempPath_reply = (ERROR_SUCCESS, ''T/''),
      GetTempFileName_reply = (\<lambda>dir prefix fs. (ERROR_SUCCESS, ''T/'' @ take 3 prefix @ ''1.tmp'')),
      MsiSetProperty_error = (\<lambda>name. ERROR_SUCCESS),
      msica_op_seq_load = (\<lambda>content.
         (ERROR_SUCCESS, [msica_op_create_string msica_op_tap_interface_create 16384 ''A''])),
      msica_op_seq_save = (\<lambda>seq path. (ERROR_SUCCESS, [])),
      msica_op_seq_process = (\<lambda>seq session w.
         (if continue_on_error session then ERROR_INSTALL_FAILURE else ERROR_SUCCESS,
          session\<lparr>seq_cleanup := (seq_cleanup session)
             (MSICA_CLEANUP_ACTION_ROLLBACK :=
                seq_cleanup session MSICA_CLEANUP_ACTION_ROLLBACK
                  @ [msica_op_create_string msica_op_tap_interface_delete_by_name 0 ''A''])\<rparr>,
          w\<lparr>devices := devices w @ [(seq, continue_on_error session)]\<rparr>))\<rparr>"

definition long_token :: string where
  "long_token = replicate 261 (CHR ''a'')"

definition recording_world :: "(msica_op_seq \<times> bool) list world" where
  "recording_world =
     \<lparr>files = [''t.q'' \<mapsto> [], ''u.q'' \<mapsto> [], long_token \<mapsto> []],
      properties = Map.empty, devices = [], calls = []\<rparr>"

definition example_deferred :: "bool \<Rightarrow> string \<Rightarrow> deferred_install" where
  "example_deferred rollback token =
     \<lparr>MsiGetMode_COMMIT = False, MsiGetMode_ROLLBACK = rollback,
      CustomActionData = (ERROR_SUCCESS, token)\<rparr>"

text \<open>
  What the installer answered for a fetched record: whether the component and the
  display name were read, the states \<^verbatim>\<open>iInstalled\<close> and \<^verbatim>\<open>iAction\<close> of the component,
  the display name, whether the condition text was read, and its value.
\<close>

definition record_read :: "planning_install \<Rightarrow> fetch \<Rightarrow> bool" where
  "record_read hInstall f =
     (fst (field_Component (hRecord f)) = ERROR_SUCCESS
      \<and> fst (MsiGetComponentState hInstall (snd (field_Component (hRecord f)))) = ERROR_SUCCESS
      \<and> fst (field_DisplayName (hRecord f)) = ERROR_SUCCESS)"

definition iInstalled_of :: "planning_install \<Rightarrow> fetch \<Rightarrow> int" where
  "iInstalled_of hInstall f =
     fst (snd (MsiGetComponentState hInstall (snd (field_Component (hRecord f)))))"

definition iAction_of :: "planning_install \<Rightarrow> fetch \<Rightarrow> int" where
  "iAction_of hInstall f =
     snd (snd (MsiGetComponentState hInstall (snd (field_Component (hRecord f)))))"

definition szDisplayName_of :: "fetch \<Rightarrow> string" where
  "szDisplayName_of f = snd (field_DisplayName (hRecord f))"

definition condition_read :: "fetch \<Rightarrow> bool" where
  "condition_read f = (fst (field_Condition (hRecord f)) = ERROR_SUCCESS)"

definition condition_value :: "planning_install \<Rightarrow> fetch \<Rightarrow> MSICONDITION" where
  "condition_value hInstall f = MsiEvaluateCondition hInstall (snd (field_Condition (hRecord f)))"

text \<open>
  The component of a record is going to be removed or degraded when its action state is
  above \<open>INSTALLSTATE_BROKEN\<close> and below \<open>INSTALLSTATE_LOCAL\<close> (advertised, removed
  or absent); it is going to be installed when its action state is \<open>INSTALLSTATE_LOCAL\<close>
  or above (local, source or default). A condition holds when the installer evaluates it
  to \<open>MSICONDITION_TRUE\<close> or to \<open>MSICONDITION_NONE\<close>, its answer to an empty text.
\<close>

definition to_be_removed :: "planning_install \<Rightarrow> fetch \<Rightarrow> bool" where
  "to_be_removed hInstall f =
     (INSTALLSTATE_BROKEN < iAction_of hInstall f \<and> iAction_of hInstall f < INSTALLSTATE_LOCAL)"

definition to_be_installed :: "planning_install \<Rightarrow> fetch \<Rightarrow> bool" where
  "to_be_installed hInstall f = (INSTALLSTATE_LOCAL \<le> iAction_of hInstall f)"

definition condition_true :: "planning_install \<Rightarrow> fetch \<Rightarrow> bool" where
  "condition_true hInstall f =
     (condition_value hInstall f = MSICONDITION_TRUE \<or> condition_value hInstall f = MSICONDITION_NONE)"

text \<open>
  In the words of the specification, a component is currently present when its installed
  state is local, source or default. It is going to be present when it is there once the
  session is over: its action state is local, source or default, or no action is taken on
  it (the action state is \<open>INSTALLSTATE_UNKNOWN\<close>) and it is currently present.
\<close>

definition spec_currently_present :: "int \<Rightarrow> bool" where
  "spec_currently_present iInstalled = (INSTALLSTATE_LOCAL \<le> iInstalled)"

definition spec_going_to_be_present :: "int \<Rightarrow> int \<Rightarrow> bool" where
  "spec_going_to_be_present iInstalled iAction =
     (INSTALLSTATE_LOCAL \<le> iAction
      \<or> (iAction = INSTALLSTATE_UNKNOWN \<and> spec_currently_present iInstalled))"

text \<open>
  The user has disabled rollback when the property \<open>RollbackDisabled\<close> could be read and
  its text is a number other than zero, or starts with the letter \<open>y\<close> or \<open>Y\<close>.
\<close>

definition rollback_disabled_by_property :: "planning_install \<Rightarrow> bool" where
  "rollback_disabled_by_property hInstall =
     (fst (RollbackDisabled hInstall) = ERROR_SUCCESS
      \<and> (ttoi (snd (RollbackDisabled hInstall)) \<noteq> 0
         \<or> take 1 (snd (RollbackDisabled hInstall)) = ''y''
         \<or> take 1 (snd (RollbackDisabled hInstall)) = ''Y''))"

text \<open>
  The operations planned for a record, the operation planned first, and the records of a
  view up to the end of the items.
\<close>

definition create_op :: "fetch \<Rightarrow> msica_op" where
  "create_op f = msica_op_create_string msica_op_tap_interface_create
     MSICA_INTERFACE_TICK_SIZE (szDisplayName_of f)"

definition delete_op :: "fetch \<Rightarrow> msica_op" where
  "delete_op f = msica_op_create_string msica_op_tap_interface_delete_by_name
     MSICA_INTERFACE_TICK_SIZE (szDisplayName_of f)"

definition rollback_op :: "planning_install \<Rightarrow> msica_op" where
  "rollback_op hInstall = msica_op_create_bool msica_op_rollback_enable 0 (enable_rollback hInstall)"

definition rows :: "fetch list \<Rightarrow> fetch list" where
  "rows fs = takeWhile (\<lambda>f. MsiViewFetch f \<noteq> ERROR_NO_MORE_ITEMS) fs"

text \<open>
  The two sequences a plan is expected to contain, and the sequences saved by a list of
  calls, in the order of the calls.
\<close>

definition planned_install_seq :: "planning_install \<Rightarrow> msica_op_seq" where
  "planned_install_seq hInstall =
     rollback_op hInstall
       # map create_op (filter (\<lambda>f. to_be_installed hInstall f \<and> condition_true hInstall f)
                         (rows (view hInstall)))"

definition planned_uninstall_seq :: "planning_install \<Rightarrow> msica_op_seq" where
  "planned_uninstall_seq hInstall =
     rollback_op hInstall # map delete_op (filter (to_be_removed hInstall) (rows (view hInstall)))"

fun saved_seqs :: "call list \<Rightarrow> msica_op_seq list" where
  "saved_seqs [] = []"
| "saved_seqs (Call_seq_save path seq # cs) = seq # saved_seqs cs"
| "saved_seqs (c # cs) = saved_seqs cs"

text \<open>
  Planning gets as far as the loop over the view when the database handle, the table,
  the view and the progress record are there.
\<close>

definition view_opened :: "planning_install \<Rightarrow> bool" where
  "view_opened hInstall =
     (MsiGetActiveDatabase hInstall \<noteq> 0
      \<and> (MsiDatabaseIsTablePersistent hInstall = MSICONDITION_FALSE
         \<or> MsiDatabaseIsTablePersistent hInstall = MSICONDITION_TRUE)
      \<and> MsiDatabaseOpenView hInstall = ERROR_SUCCESS
      \<and> MsiViewExecute hInstall = ERROR_SUCCESS
      \<and> MsiCreateRecord hInstall \<noteq> 0)"

text \<open>
  What \<^verbatim>\<open>GetTempFileName\<close> promises: on success the buffer holds a name that is not
  empty and fits \<open>MAX_PATH\<close> characters.
\<close>

definition GetTempFileName_contract :: "'x platform \<Rightarrow> bool" where
  "GetTempFileName_contract plat =
     (\<forall>dir prefix fs. fst (GetTempFileName_reply plat dir prefix fs) = ERROR_SUCCESS \<longrightarrow>
        snd (GetTempFileName_reply plat dir prefix fs) \<noteq> []
        \<and> length (snd (GetTempFileName_reply plat dir prefix fs)) \<le> MAX_PATH)"

text \<open>
  Persisting one sequence file, read off the answers of the platform, for the property
  \<open>szProperty\<close>, the sequence \<open>seq\<close> and the files \<open>fs\<close> there are at that moment:
  \<^item> \<open>setup_buffer\<close>: the contents of the filename buffer after \<^verbatim>\<open>GetTempPath\<close> and
    \<^verbatim>\<open>GetTempFileName\<close>;
  \<^item> \<open>setup_error\<close>: the first error among those of \<^verbatim>\<open>GetTempPath\<close>, of
    \<^verbatim>\<open>GetTempFileName\<close> and of \<^verbatim>\<open>MsiSetProperty\<close> for the property and for its commit
    and rollback companions (\<open>ERROR_SUCCESS\<close> if none fails);
  \<^item> \<open>journal_error\<close>: the first error among these, that of \<^verbatim>\<open>CreateFile\<close> and the
    result of \<^verbatim>\<open>msica_op_seq_save\<close>;
  \<^item> \<open>journal_written\<close>: the files once the sequence has been saved.
\<close>

definition setup_buffer :: "'x platform \<Rightarrow> string \<Rightarrow> (string \<rightharpoonup> bytes) \<Rightarrow> string" where
  "setup_buffer plat szProperty fs =
     (if fst (GetTempPath_reply plat) \<noteq> ERROR_SUCCESS then snd (GetTempPath_reply plat)
      else snd (GetTempFileName_reply plat (snd (GetTempPath_reply plat)) szProperty fs))"

definition setup_error :: "'x platform \<Rightarrow> string \<Rightarrow> (string \<rightharpoonup> bytes) \<Rightarrow> DWORD" where
  "setup_error plat szProperty fs =
     (if fst (GetTempPath_reply plat) \<noteq> ERROR_SUCCESS then fst (GetTempPath_reply plat)
      else if fst (GetTempFileName_reply plat (snd (GetTempPath_reply plat)) szProperty fs)
                \<noteq> ERROR_SUCCESS
        then fst (GetTempFileName_reply plat (snd (GetTempPath_reply plat)) szProperty fs)
      else if MsiSetProperty_error plat szProperty \<noteq> ERROR_SUCCESS
        then MsiSetProperty_error plat szProperty
      else if MsiSetProperty_error plat (szProperty @ ''Commit'') \<noteq> ERROR_SUCCESS
        then MsiSetProperty_error plat (szProperty @ ''Commit'')
      else MsiSetProperty_error plat (szProperty @ ''Rollback''))"

definition journal_error ::
  "'x platform \<Rightarrow> string \<Rightarrow> msica_op_seq \<Rightarrow> (string \<rightharpoonup> bytes) \<Rightarrow> DWORD" where
  "journal_error plat szProperty seq fs =
     (if setup_error plat szProperty fs \<noteq> ERROR_SUCCESS then setup_error plat szProperty fs
      else persist_error plat seq (setup_buffer plat szProperty fs))"

definition journal_written ::
  "'x platform \<Rightarrow> string \<Rightarrow> msica_op_seq \<Rightarrow> (string \<rightharpoonup> bytes) \<Rightarrow> (string \<rightharpoonup> bytes)" where
  "journal_written plat szProperty seq fs =
     fs(setup_buffer plat szProperty fs
          \<mapsto> snd (msica_op_seq_save plat seq (setup_buffer plat szProperty fs)))"

text \<open>
  Installer answers for planning: the component \<open>compA\<close> is absent and going to be
  installed, \<open>compC\<close> is installed and going to be removed, any other component is
  absent with the action state absent; the condition texts \<open>0\<close> and \<open>1\<close> are false
  and true, the empty text has no value, any other text is an error. The second
  platform denies no file.
\<close>

definition IDOK :: int where
  "IDOK = 1"

definition example_fetch :: "string \<Rightarrow> string \<Rightarrow> string \<Rightarrow> int \<Rightarrow> fetch" where
  "example_fetch name condition component reply =
     \<lparr>MsiViewFetch = ERROR_SUCCESS,
      hRecord = \<lparr>field_Component = (ERROR_SUCCESS, component),
                 field_DisplayName = (ERROR_SUCCESS, name),
                 field_Condition = (ERROR_SUCCESS, condition)\<rparr>,
      MsiProcessMessage = reply\<rparr>"

definition example_planning :: "fetch list \<Rightarrow> planning_install" where
  "example_planning fs =
     \<lparr>RollbackDisabled = (ERROR_SUCCESS, []),
      MsiGetActiveDatabase = 1,
      MsiDatabaseIsTablePersistent = MSICONDITION_TRUE,
      MsiDatabaseOpenView = ERROR_SUCCESS,
      MsiViewExecute = ERROR_SUCCESS,
      MsiCreateRecord = 2,
      view = fs,
      MsiGetComponentState = (\<lambda>component.
         if component = ''compA'' then (ERROR_SUCCESS, INSTALLSTATE_ABSENT, INSTALLSTATE_LOCAL)
         else if component = ''compC'' then (ERROR_SUCCESS, INSTALLSTATE_LOCAL, INSTALLSTATE_ABSENT)
         else (ERROR_SUCCESS, INSTALLSTATE_ABSENT, INSTALLSTATE_ABSENT)),
      MsiEvaluateCondition = (\<lambda>text.
         if text = [] then MSICONDITION_NONE
         else if text = ''0'' then MSICONDITION_FALSE
         else if text = ''1'' then MSICONDITION_TRUE
         else MSICONDITION_ERROR)\<rparr>"

definition row_A :: fetch where
  "row_A = example_fetch ''A'' [] ''compA'' IDOK"

definition row_B :: fetch where
  "row_B = example_fetch ''B'' ''0'' ''compB'' IDOK"

definition row_C :: fetch where
  "row_C = example_fetch ''C'' ''1'' ''compC'' IDOK"

definition row_bad_condition :: fetch where
  "row_bad_condition = example_fetch ''D'' ''?'' ''compA'' IDOK"

definition row_cancelled :: fetch where
  "row_cancelled = example_fetch ''E'' ''1'' ''compA'' IDCANCEL"

text \<open>
  A maintenance session: the user has disabled rollback with the text \<open>1\<close>, and the
  component \<open>compK\<close> is installed and no action is taken on it. The record \<open>K\<close>
  belongs to this component and has no condition.
\<close>

definition example_maintenance :: "fetch list \<Rightarrow> planning_install" where
  "example_maintenance fs =
     (example_planning fs)
       \<lparr>RollbackDisabled := (ERROR_SUCCESS, ''1''),
        MsiGetComponentState := (\<lambda>component.
          if component = ''compK'' then (ERROR_SUCCESS, INSTALLSTATE_LOCAL, INSTALLSTATE_UNKNOWN)
          else MsiGetComponentState (example_planning fs) component)\<rparr>"

definition row_K :: fetch where
  "row_K = example_fetch ''K'' [] ''compK'' IDOK"

definition example_platform_ok :: "unit platform" where
  "example_platform_ok = example_platform\<lparr>CreateFile_error := (\<lambda>p. ERROR_SUCCESS)\<rparr>"

section \<open>Properties\<close>

lemma find_ext_bounds:
  "find_ext cs i l = Some k \<Longrightarrow> (l = Some k) \<or> (i \<le> k \<and> k < i + length cs)"
proof (induction cs arbitrary: i l)
  case Nil
  then show ?case by simp
next
  case (Cons c cs)
  from Cons.prems Cons.IH [of "Suc i"] show ?case
    by (fastforce split: if_splits)
qed

lemma find_ext_dot:
  "find_ext cs i l = Some k \<Longrightarrow> i \<le> k \<Longrightarrow> (\<forall>j. l = Some j \<longrightarrow> j < i) \<Longrightarrow> cs ! (k - i) = CHR ''.''"
proof (induction cs arbitrary: i l)
  case Nil
  then show ?case by auto
next
  case (Cons c cs)
  let ?l' = "if c = CHR 0x5C \<or> c = CHR '' '' then None
        else if c = CHR ''.'' then Some i else l"
  from Cons.prems(1) have step: "find_ext cs (Suc i) ?l' = Some k" by simp
  show ?case
  proof (cases "k = i")
    case True
    from find_ext_bounds [OF step] True have "?l' = Some i" by auto
    with Cons.prems(3) have "c = CHR ''.''" by (auto split: if_splits)
    with True show ?thesis by simp
  next
    case False
    with Cons.prems(2) have lt: "Suc i \<le> k" by simp
    have "\<forall>j. ?l' = Some j \<longrightarrow> j < Suc i"
      using Cons.prems(3) by (auto split: if_splits simp: less_Suc_eq)
    from Cons.IH [OF step lt this] have "cs ! (k - Suc i) = CHR ''.''" .
    with lt show ?thesis by (simp add: nth_Cons')
  qed
qed

lemma PathFindExtension_le: "PathFindExtension p \<le> length p"
  unfolding PathFindExtension_def
  using find_ext_bounds [of p 0 None] by (auto split: option.splits)

lemma PathFindExtension_dot:
  "PathFindExtension p < length p \<Longrightarrow> p ! PathFindExtension p = CHR ''.''"
  unfolding PathFindExtension_def
  using find_ext_dot [of p 0 None] by (auto split: option.splits)

lemma szSuffix_values:
  "szSuffix MSICA_CLEANUP_ACTION_COMMIT = ''cm''"
  "szSuffix MSICA_CLEANUP_ACTION_ROLLBACK = ''rb''"
  by (simp_all add: szSuffix_def openvpnmsica_cleanup_action_seqs_def
      MSICA_CLEANUP_ACTION_COMMIT_def MSICA_CLEANUP_ACTION_ROLLBACK_def)

lemma cleanup_action_cases:
  "i < MSICA_CLEANUP_ACTION_COUNT \<Longrightarrow>
     i = MSICA_CLEANUP_ACTION_COMMIT \<or> i = MSICA_CLEANUP_ACTION_ROLLBACK"
  by (auto simp: MSICA_CLEANUP_ACTION_COUNT_def MSICA_CLEANUP_ACTION_COMMIT_def
      MSICA_CLEANUP_ACTION_ROLLBACK_def)

lemma take_2_szSuffix:
  "i < MSICA_CLEANUP_ACTION_COUNT \<Longrightarrow> take 2 (szSuffix i) = szSuffix i"
  using cleanup_action_cases [of i] szSuffix_values by auto

lemma format_filename_ex_length:
  "length (format_filename_ex p off suffix) \<le> length p + 3"
  by (simp add: format_filename_ex_def)

lemma deferred_filename_ex_fits:
  "length p \<le> MAX_PATH \<Longrightarrow>
     deferred_filename_ex p i = Some (format_filename_ex p (PathFindExtension p) (szSuffix i))"
  using format_filename_ex_length [of p "PathFindExtension p" "szSuffix i"]
  by (simp add: deferred_filename_ex_def stprintf_s_def)

lemma setup_filename_ex_fits:
  "length p \<le> MAX_PATH \<Longrightarrow>
     setup_filename_ex p i = Some (format_filename_ex p (PathFindExtension p) (szSuffix i))"
  using format_filename_ex_length [of p "PathFindExtension p" "szSuffix i"]
  by (simp add: setup_filename_ex_def stprintf_s_def)

subsection \<open>C2: the names of the cleanup sequence files\<close>

text \<open>
  C2, as stated: the commit and rollback cleanup filenames are the base path with the
  2-character suffix inserted before the extension. The code puts a dash in front of the
  suffix: for the base \<open>Ins1A.tmp\<close> the commit cleanup file is \<open>Ins1A-cm.tmp\<close> and not
  \<open>Ins1Acm.tmp\<close>.
\<close>

theorem C2_suffix_without_dash_counterexample:
  "setup_filename_ex ''Ins1A.tmp'' MSICA_CLEANUP_ACTION_COMMIT
     \<noteq> Some (spec_insert_suffix ''Ins1A.tmp'' (szSuffix MSICA_CLEANUP_ACTION_COMMIT))"
  by (simp add: setup_filename_ex_def spec_insert_suffix_def PathFindExtension_def
      stprintf_s_def format_filename_ex_def szSuffix_def openvpnmsica_cleanup_action_seqs_def
      MAX_PATH_def MSICA_CLEANUP_ACTION_COMMIT_def)

text \<open>
  C2, amended: for every base path of at most \<open>MAX_PATH\<close> characters that has a file
  extension, and for each of the two cleanup actions, the planning side and the deferred
  side compute the same name, which is the part of the base path before its extension,
  a dash, the 2-character suffix of the action (\<open>cm\<close> for commit, \<open>rb\<close> for rollback)
  and the extension, which starts with its dot.
\<close>

theorem C2_cleanup_filename:
  assumes "length base \<le> MAX_PATH"
    and "PathFindExtension base < length base"
    and "i < MSICA_CLEANUP_ACTION_COUNT"
  shows "setup_filename_ex base i =
           Some (take (PathFindExtension base) base @ ''-'' @ szSuffix i
                 @ drop (PathFindExtension base) base)
         \<and> deferred_filename_ex base i = setup_filename_ex base i
         \<and> hd (drop (PathFindExtension base) base) = CHR ''.''
         \<and> szSuffix MSICA_CLEANUP_ACTION_COMMIT = ''cm''
         \<and> szSuffix MSICA_CLEANUP_ACTION_ROLLBACK = ''rb''"
proof -
  have name: "setup_filename_ex base i =
      Some (take (PathFindExtension base) base @ ''-'' @ szSuffix i
            @ drop (PathFindExtension base) base)"
    using setup_filename_ex_fits [OF assms(1), of i] take_2_szSuffix [OF assms(3)]
    by (simp add: format_filename_ex_def)
  have same: "deferred_filename_ex base i = setup_filename_ex base i"
    using setup_filename_ex_fits [OF assms(1), of i] deferred_filename_ex_fits [OF assms(1), of i]
    by simp
  have dot: "hd (drop (PathFindExtension base) base) = CHR ''.''"
    using PathFindExtension_dot [OF assms(2)] assms(2) by (simp add: hd_drop_conv_nth)
  from name same dot szSuffix_values show ?thesis by simp
qed

theorem C2_cleanup_filename_witness:
  "setup_filename_ex ''Ins1A.tmp'' MSICA_CLEANUP_ACTION_ROLLBACK = Some ''Ins1A-rb.tmp''
   \<and> deferred_filename_ex ''Ins1A.tmp'' MSICA_CLEANUP_ACTION_ROLLBACK = Some ''Ins1A-rb.tmp''"
proof -
  have len: "length ''Ins1A.tmp'' \<le> MAX_PATH" by (simp add: MAX_PATH_def)
  have ext: "PathFindExtension ''Ins1A.tmp'' < length ''Ins1A.tmp''"
    by (simp add: PathFindExtension_def)
  have act: "MSICA_CLEANUP_ACTION_ROLLBACK < MSICA_CLEANUP_ACTION_COUNT"
    by (simp add: MSICA_CLEANUP_ACTION_COUNT_def MSICA_CLEANUP_ACTION_ROLLBACK_def)
  have off: "PathFindExtension ''Ins1A.tmp'' = 5" by (simp add: PathFindExtension_def)
  from C2_cleanup_filename [OF len ext act] show ?thesis by (simp add: off)
qed

subsection \<open>The deferred custom action: auxiliary facts\<close>




lemma cleanup_actions_eq: "cleanup_actions = [MSICA_CLEANUP_ACTION_COMMIT, MSICA_CLEANUP_ACTION_ROLLBACK]"
  by (simp add: cleanup_actions_def MSICA_CLEANUP_ACTION_COUNT_def upt_rec
      MSICA_CLEANUP_ACTION_COMMIT_def MSICA_CLEANUP_ACTION_ROLLBACK_def)

lemma deferred_filename_ex_cleanup:
  "length tok \<le> MAX_PATH \<Longrightarrow> deferred_filename_ex tok i = Some (cleanup_filename tok i)"
  by (simp add: deferred_filename_ex_fits cleanup_filename_def)

lemma other_action:
  "MSICA_CLEANUP_ACTION_COUNT - 1 - MSICA_CLEANUP_ACTION_COMMIT = MSICA_CLEANUP_ACTION_ROLLBACK"
  "MSICA_CLEANUP_ACTION_COUNT - 1 - MSICA_CLEANUP_ACTION_ROLLBACK = MSICA_CLEANUP_ACTION_COMMIT"
  "MSICA_CLEANUP_ACTION_COMMIT \<noteq> MSICA_CLEANUP_ACTION_ROLLBACK"
  by (simp_all add: MSICA_CLEANUP_ACTION_COUNT_def MSICA_CLEANUP_ACTION_COMMIT_def
      MSICA_CLEANUP_ACTION_ROLLBACK_def)


lemma add_file_delete_ops_cleanup:
  assumes "length tok \<le> MAX_PATH"
  shows "\<exists>s1. add_file_delete_ops tok cleanup_actions s = Some s1
     \<and> seq_cleanup s1 MSICA_CLEANUP_ACTION_COMMIT =
         seq_cleanup s MSICA_CLEANUP_ACTION_COMMIT
           @ [file_delete_op (cleanup_filename tok MSICA_CLEANUP_ACTION_ROLLBACK)]
     \<and> seq_cleanup s1 MSICA_CLEANUP_ACTION_ROLLBACK =
         seq_cleanup s MSICA_CLEANUP_ACTION_ROLLBACK
           @ [file_delete_op (cleanup_filename tok MSICA_CLEANUP_ACTION_COMMIT)]"
  using assms
  by (simp add: cleanup_actions_def upt_rec deferred_filename_ex_cleanup
      msica_op_seq_add_tail_def file_delete_op_def MSICA_CLEANUP_ACTION_COUNT_def
      MSICA_CLEANUP_ACTION_COMMIT_def MSICA_CLEANUP_ACTION_ROLLBACK_def)

lemma calls_log_call [simp]: "calls (log_call c w) = calls w @ [c]"
  and files_log_call [simp]: "files (log_call c w) = files w"
  by (simp_all add: log_call_def)

lemma calls_DeleteFile [simp]: "calls (DeleteFile plat p w) = calls w @ [Call_DeleteFile p]"
  by (simp add: DeleteFile_def Let_def)

lemma files_DeleteFile:
  "files (DeleteFile plat p w) q =
     (if q = p \<and> \<not> DeleteFile_fails plat p then None else files w q)"
  by (simp add: DeleteFile_def Let_def)

lemma frame_DeleteFile [simp]:
  "devices (DeleteFile plat p w) = devices w"
  "properties (DeleteFile plat p w) = properties w"
  by (simp_all add: DeleteFile_def Let_def log_call_def)

lemma deferred_filename_ex_too_long:
  assumes "MAX_PATH < length tok" and "i < MSICA_CLEANUP_ACTION_COUNT"
  shows "deferred_filename_ex tok i = None"
proof -
  have "length (szSuffix i) = 2"
    using cleanup_action_cases [OF assms(2)] szSuffix_values by auto
  then have "length (format_filename_ex tok (PathFindExtension tok) (szSuffix i)) = length tok + 3"
    using PathFindExtension_le [of tok] by (simp add: format_filename_ex_def)
  with assms(1) show ?thesis
    by (simp add: deferred_filename_ex_def stprintf_s_def)
qed

lemma save_cleanup_seqs_result:
  assumes "length tok \<le> MAX_PATH"
  shows "\<exists>e w1 l. save_cleanup_seqs plat tok cleanup_actions s w = Some (e, w1)
     \<and> calls w1 = calls w @ l
     \<and> devices w1 = devices w \<and> properties w1 = properties w
     \<and> (e \<noteq> ERROR_SUCCESS \<longleftrightarrow>
          persist_error plat (seq_cleanup s MSICA_CLEANUP_ACTION_COMMIT)
              (cleanup_filename tok MSICA_CLEANUP_ACTION_COMMIT) \<noteq> ERROR_SUCCESS
        \<or> persist_error plat (seq_cleanup s MSICA_CLEANUP_ACTION_ROLLBACK)
              (cleanup_filename tok MSICA_CLEANUP_ACTION_ROLLBACK) \<noteq> ERROR_SUCCESS)"
  using assms
  by (auto simp: cleanup_actions_eq deferred_filename_ex_cleanup persist_error_def
      CreateFile_always_def seq_save_def Let_def log_call_def split: prod.splits)

lemma cleanup_session_failed:
  assumes "length tok \<le> MAX_PATH" and "e \<noteq> ERROR_SUCCESS"
  shows "cleanup_session plat tok e s w =
     Some (DeleteFile plat (cleanup_filename tok MSICA_CLEANUP_ACTION_ROLLBACK)
            (DeleteFile plat (cleanup_filename tok MSICA_CLEANUP_ACTION_COMMIT)
              ((after_run plat (seq_cleanup s MSICA_CLEANUP_ACTION_ROLLBACK)
                   (openvpnmsica_session_init True False) w)
                 \<lparr>calls := calls w @
                    [Call_seq_process (seq_cleanup s MSICA_CLEANUP_ACTION_ROLLBACK) True]\<rparr>)))"
  using assms
  by (simp add: cleanup_session_def seq_process_def cleanup_actions_eq after_run_def
      deferred_filename_ex_cleanup openvpnmsica_session_init_def case_prod_beta)

lemma cleanup_session_returns:
  assumes "length tok \<le> MAX_PATH"
  shows "\<exists>w2 l. cleanup_session plat tok e s w = Some w2 \<and> calls w2 = calls w @ l"
proof (cases "e = ERROR_SUCCESS")
  case True
  then show ?thesis by (simp add: cleanup_session_def)
next
  case False
  from cleanup_session_failed [OF assms False, of plat s w] show ?thesis by simp
qed

lemma save_or_cleanup_returns:
  assumes fits: "b \<or> length tok \<le> MAX_PATH"
  shows "\<exists>w' l. save_or_cleanup plat b tok r s w = Some (if b then ERROR_SUCCESS else r, w')
           \<and> calls w' = calls w @ l"
proof (cases b)
  case True
  then show ?thesis by (simp add: save_or_cleanup_def)
next
  case False
  with fits have assms: "length tok \<le> MAX_PATH" by simp
  from add_file_delete_ops_cleanup [OF assms, of s] obtain s1 where
    s1: "add_file_delete_ops tok cleanup_actions s = Some s1" by blast
  from save_cleanup_seqs_result [OF assms, of plat s1 w] obtain e w1 l1 where
    sv: "save_cleanup_seqs plat tok cleanup_actions s1 w = Some (e, w1)"
    and c1: "calls w1 = calls w @ l1" by blast
  from cleanup_session_returns [OF assms, of plat e s1 w1] obtain w2 l2 where
    cs: "cleanup_session plat tok e s1 w1 = Some w2" and c2: "calls w2 = calls w1 @ l2" by blast
  from False s1 sv cs c1 c2 show ?thesis by (simp add: save_or_cleanup_def)
qed

lemma save_or_cleanup_failed:
  assumes len: "length tok \<le> MAX_PATH"
    and failed:
      "persist_error plat
         (seq_cleanup s MSICA_CLEANUP_ACTION_COMMIT
            @ [file_delete_op (cleanup_filename tok MSICA_CLEANUP_ACTION_ROLLBACK)])
         (cleanup_filename tok MSICA_CLEANUP_ACTION_COMMIT) \<noteq> ERROR_SUCCESS
       \<or> persist_error plat
         (seq_cleanup s MSICA_CLEANUP_ACTION_ROLLBACK
            @ [file_delete_op (cleanup_filename tok MSICA_CLEANUP_ACTION_COMMIT)])
         (cleanup_filename tok MSICA_CLEANUP_ACTION_ROLLBACK) \<noteq> ERROR_SUCCESS"
  shows "\<exists>w1 l. calls w1 = calls w @ l
     \<and> devices w1 = devices w \<and> properties w1 = properties w
     \<and> save_or_cleanup plat False tok r s w =
         Some (r, DeleteFile plat (cleanup_filename tok MSICA_CLEANUP_ACTION_ROLLBACK)
            (DeleteFile plat (cleanup_filename tok MSICA_CLEANUP_ACTION_COMMIT)
              ((after_run plat
                   (seq_cleanup s MSICA_CLEANUP_ACTION_ROLLBACK
                      @ [file_delete_op (cleanup_filename tok MSICA_CLEANUP_ACTION_COMMIT)])
                   (openvpnmsica_session_init True False) w1)
                 \<lparr>calls := calls w1 @
                    [Call_seq_process
                       (seq_cleanup s MSICA_CLEANUP_ACTION_ROLLBACK
                          @ [file_delete_op (cleanup_filename tok MSICA_CLEANUP_ACTION_COMMIT)])
                       True]\<rparr>)))"
proof -
  from add_file_delete_ops_cleanup [OF len, of s] obtain s1 where
    s1: "add_file_delete_ops tok cleanup_actions s = Some s1"
    and cm: "seq_cleanup s1 MSICA_CLEANUP_ACTION_COMMIT =
         seq_cleanup s MSICA_CLEANUP_ACTION_COMMIT
           @ [file_delete_op (cleanup_filename tok MSICA_CLEANUP_ACTION_ROLLBACK)]"
    and rb: "seq_cleanup s1 MSICA_CLEANUP_ACTION_ROLLBACK =
         seq_cleanup s MSICA_CLEANUP_ACTION_ROLLBACK
           @ [file_delete_op (cleanup_filename tok MSICA_CLEANUP_ACTION_COMMIT)]" by blast
  from save_cleanup_seqs_result [OF len, of plat s1 w] failed cm rb obtain e w1 l1 where
    sv: "save_cleanup_seqs plat tok cleanup_actions s1 w = Some (e, w1)"
    and c1: "calls w1 = calls w @ l1"
    and d1: "devices w1 = devices w" "properties w1 = properties w"
    and e: "e \<noteq> ERROR_SUCCESS" by auto
  note cs = cleanup_session_failed [OF len e, of plat s1 w1, unfolded rb]
  have "save_or_cleanup plat False tok r s w =
      Some (r, DeleteFile plat (cleanup_filename tok MSICA_CLEANUP_ACTION_ROLLBACK)
            (DeleteFile plat (cleanup_filename tok MSICA_CLEANUP_ACTION_COMMIT)
              ((after_run plat
                   (seq_cleanup s MSICA_CLEANUP_ACTION_ROLLBACK
                      @ [file_delete_op (cleanup_filename tok MSICA_CLEANUP_ACTION_COMMIT)])
                   (openvpnmsica_session_init True False) w1)
                 \<lparr>calls := calls w1 @
                    [Call_seq_process
                       (seq_cleanup s MSICA_CLEANUP_ACTION_ROLLBACK
                          @ [file_delete_op (cleanup_filename tok MSICA_CLEANUP_ACTION_COMMIT)])
                       True]\<rparr>)))"
    using s1 sv cs by (simp add: save_or_cleanup_def)
  with c1 d1 show ?thesis by blast
qed

subsection \<open>C5: the sequence file is missing\<close>

text \<open>
  C5, amended: the sequence file named by \<^verbatim>\<open>CustomActionData\<close> does not exist at the
  start of \<^verbatim>\<open>ProcessDeferredAction\<close>, and opening it fails with the code the platform
  gives. If that code is \<open>ERROR_FILE_NOT_FOUND\<close>, a commit or rollback invocation
  returns \<open>ERROR_SUCCESS\<close> and any other invocation returns \<open>ERROR_FILE_NOT_FOUND\<close>,
  which is not \<open>ERROR_SUCCESS\<close>. If it is any other code, every invocation returns that
  code. In all cases the attempt to open the file is the only call made: no sequence is
  loaded or run, and files, properties and devices are as before.
\<close>

theorem C5_missing_sequence_file:
  assumes "CustomActionData hInstall = (ERROR_SUCCESS, tok)"
    and "files w tok = None"
  shows "ProcessDeferredAction plat hInstall w =
           Some (if CreateFile_missing plat tok = ERROR_FILE_NOT_FOUND
                    \<and> (MsiGetMode_COMMIT hInstall \<or> MsiGetMode_ROLLBACK hInstall)
                 then ERROR_SUCCESS else CreateFile_missing plat tok,
                 w\<lparr>calls := calls w @ [Call_CreateFile tok]\<rparr>)
         \<and> ERROR_FILE_NOT_FOUND \<noteq> ERROR_SUCCESS"
  using assms
  by (simp add: ProcessDeferredAction_def CreateFile_existing_def log_call_def
      ERROR_FILE_NOT_FOUND_def ERROR_SUCCESS_def)

subsection \<open>C6: commit and rollback invocations\<close>

text \<open>
  C6: in a commit or rollback invocation whose sequence file is opened and loaded,
  \<^verbatim>\<open>msica_op_seq_process\<close> is run on the loaded sequence, once, in a session that
  continues on error and in the world as it is after the loading. Whatever result \<open>r\<close>
  it returns, the invocation returns \<open>ERROR_SUCCESS\<close>, and it leaves the world as the
  run left it, but for the calls recorded and the sequence file, on which
  \<^verbatim>\<open>DeleteFile\<close> is called last.
\<close>

theorem C6_cleanup_pass:
  assumes cleanup: "MsiGetMode_COMMIT hInstall \<or> MsiGetMode_ROLLBACK hInstall"
    and token: "CustomActionData hInstall = (ERROR_SUCCESS, tok)"
    and exists: "files w tok = Some content"
    and opened: "CreateFile_error plat tok = ERROR_SUCCESS"
    and loaded: "msica_op_seq_load plat content = (ERROR_SUCCESS, seq)"
    and executed:
      "msica_op_seq_process plat seq (openvpnmsica_session_init True False)
         (log_call (Call_seq_load tok) (log_call (Call_CreateFile tok) w)) = (r, session, w3)"
  shows "\<exists>w'. ProcessDeferredAction plat hInstall w = Some (ERROR_SUCCESS, w')
           \<and> calls w' = calls w @
               [Call_CreateFile tok, Call_seq_load tok,
                Call_seq_process seq True, Call_DeleteFile tok]
           \<and> devices w' = devices w3
           \<and> properties w' = properties w3
           \<and> files w' = (if DeleteFile_fails plat tok then files w3 else (files w3)(tok := None))"
proof -
  have b: "(MsiGetMode_COMMIT hInstall \<or> MsiGetMode_ROLLBACK hInstall) = True"
    using cleanup by simp
  have "ProcessDeferredAction plat hInstall w =
      Some (ERROR_SUCCESS, DeleteFile plat tok
        (w3\<lparr>calls := calls w @ [Call_CreateFile tok, Call_seq_load tok,
                                 Call_seq_process seq True]\<rparr>))"
    unfolding ProcessDeferredAction_def b
    using token exists opened loaded executed
    by (simp add: CreateFile_existing_def seq_process_def save_or_cleanup_def
        openvpnmsica_session_init_def)
  then show ?thesis
    by (simp add: DeleteFile_def Let_def log_call_def)
qed

subsection \<open>C10: the sequence file is deleted once it has been loaded\<close>

text \<open>
  C10, amended: when \<^verbatim>\<open>ProcessDeferredAction\<close> has opened the sequence file, in a commit
  or rollback invocation or for a token of at most \<open>MAX_PATH\<close> characters, it returns, and
  \<^item> if the sequence was loaded, \<^verbatim>\<open>DeleteFile\<close> on the sequence file is the last call
    made, whatever running the sequence and saving the cleanup sequences gave, and the
    file does not exist afterwards unless that \<^verbatim>\<open>DeleteFile\<close> fails;
  \<^item> if loading failed, the result is the load error, no file has changed and the
    only calls were the opening and the loading.
\<close>

theorem C10_input_file_deleted:
  assumes token: "CustomActionData hInstall = (ERROR_SUCCESS, tok)"
    and len: "MsiGetMode_COMMIT hInstall \<or> MsiGetMode_ROLLBACK hInstall
              \<or> length tok \<le> MAX_PATH"
    and exists: "files w tok = Some content"
    and opened: "CreateFile_error plat tok = ERROR_SUCCESS"
  shows "\<exists>r w'. ProcessDeferredAction plat hInstall w = Some (r, w')
     \<and> (if fst (msica_op_seq_load plat content) = ERROR_SUCCESS
         then (\<exists>pre. calls w' = pre @ [Call_DeleteFile tok])
              \<and> (\<not> DeleteFile_fails plat tok \<longrightarrow> files w' tok = None)
         else r = fst (msica_op_seq_load plat content)
              \<and> files w' = files w
              \<and> calls w' = calls w @ [Call_CreateFile tok, Call_seq_load tok])"
proof (cases "fst (msica_op_seq_load plat content) = ERROR_SUCCESS")
  case False
  with token exists opened show ?thesis
    by (cases "msica_op_seq_load plat content")
      (simp add: ProcessDeferredAction_def CreateFile_existing_def Let_def)
next
  case True
  define b where "b = (MsiGetMode_COMMIT hInstall \<or> MsiGetMode_ROLLBACK hInstall)"
  define w2 where "w2 = log_call (Call_seq_load tok) (log_call (Call_CreateFile tok) w)"
  obtain seq where ld: "msica_op_seq_load plat content = (ERROR_SUCCESS, seq)"
    using True by (cases "msica_op_seq_load plat content") auto
  obtain r s w3 where run:
    "seq_process plat seq (openvpnmsica_session_init b False) w2 = (r, s, w3)"
    by (cases "seq_process plat seq (openvpnmsica_session_init b False) w2") auto
  from len have "b \<or> length tok \<le> MAX_PATH" by (auto simp: b_def)
  from save_or_cleanup_returns [OF this, of plat r s w3] obtain w4 where
    sc: "save_or_cleanup plat b tok r s w3 = Some (if b then ERROR_SUCCESS else r, w4)"
    by blast
  have "ProcessDeferredAction plat hInstall w =
      Some (if b then ERROR_SUCCESS else r, DeleteFile plat tok w4)"
    using token exists opened ld run sc
    by (simp add: ProcessDeferredAction_def CreateFile_existing_def b_def w2_def)
  with True show ?thesis by (simp add: files_DeleteFile)
qed

subsection \<open>C1: the cleanup sequences cannot be saved\<close>

text \<open>
  C1, amended: in an invocation that is neither commit nor rollback, whose sequence
  file (named by a token of at most \<open>MAX_PATH\<close> characters) was opened, loaded and run
  with result \<open>uiResult\<close>, leaving the session \<open>session\<close> and the world \<open>w3\<close>: if
  persisting the commit cleanup sequence or the rollback cleanup sequence fails, then
  \<^item> in the world \<open>w1\<close> the attempts to persist have left (they change files and calls
    only), \<^verbatim>\<open>msica_op_seq_process\<close> is run on the rollback cleanup sequence (what the
    first run left, followed by the deletion of the commit cleanup file), in a session
    that continues on error;
  \<^item> then \<^verbatim>\<open>DeleteFile\<close> is called on the commit cleanup file, on the rollback cleanup
    file and on the sequence file, in this order and as the last calls;
  \<^item> the world at the return is the world this second run left, but for the calls
    recorded and these three files, none of which exists unless its \<^verbatim>\<open>DeleteFile\<close>
    fails;
  \<^item> the invocation returns \<open>uiResult\<close>, the result of running the loaded sequence.
\<close>

theorem C1_persistence_failure_fallback:
  assumes mode: "\<not> MsiGetMode_COMMIT hInstall" "\<not> MsiGetMode_ROLLBACK hInstall"
    and token: "CustomActionData hInstall = (ERROR_SUCCESS, tok)"
    and len: "length tok \<le> MAX_PATH"
    and exists: "files w tok = Some content"
    and opened: "CreateFile_error plat tok = ERROR_SUCCESS"
    and loaded: "msica_op_seq_load plat content = (ERROR_SUCCESS, seq)"
    and executed:
      "msica_op_seq_process plat seq (openvpnmsica_session_init False False)
         (log_call (Call_seq_load tok) (log_call (Call_CreateFile tok) w)) = (uiResult, session, w3)"
    and failed:
      "persist_error plat
         (seq_cleanup session MSICA_CLEANUP_ACTION_COMMIT
            @ [file_delete_op (cleanup_filename tok MSICA_CLEANUP_ACTION_ROLLBACK)])
         (cleanup_filename tok MSICA_CLEANUP_ACTION_COMMIT) \<noteq> ERROR_SUCCESS
       \<or> persist_error plat
         (seq_cleanup session MSICA_CLEANUP_ACTION_ROLLBACK
            @ [file_delete_op (cleanup_filename tok MSICA_CLEANUP_ACTION_COMMIT)])
         (cleanup_filename tok MSICA_CLEANUP_ACTION_ROLLBACK) \<noteq> ERROR_SUCCESS"
  shows "\<exists>w1 l w'. ProcessDeferredAction plat hInstall w = Some (uiResult, w')
     \<and> calls w1 = calls w @ [Call_CreateFile tok, Call_seq_load tok, Call_seq_process seq False] @ l
     \<and> devices w1 = devices w3 \<and> properties w1 = properties w3
     \<and> calls w' = calls w1 @
         [Call_seq_process
            (seq_cleanup session MSICA_CLEANUP_ACTION_ROLLBACK
               @ [file_delete_op (cleanup_filename tok MSICA_CLEANUP_ACTION_COMMIT)]) True,
          Call_DeleteFile (cleanup_filename tok MSICA_CLEANUP_ACTION_COMMIT),
          Call_DeleteFile (cleanup_filename tok MSICA_CLEANUP_ACTION_ROLLBACK),
          Call_DeleteFile tok]
     \<and> devices w' = devices (after_run plat
            (seq_cleanup session MSICA_CLEANUP_ACTION_ROLLBACK
               @ [file_delete_op (cleanup_filename tok MSICA_CLEANUP_ACTION_COMMIT)])
            (openvpnmsica_session_init True False) w1)
     \<and> properties w' = properties (after_run plat
            (seq_cleanup session MSICA_CLEANUP_ACTION_ROLLBACK
               @ [file_delete_op (cleanup_filename tok MSICA_CLEANUP_ACTION_COMMIT)])
            (openvpnmsica_session_init True False) w1)
     \<and> (\<forall>p. files w' p =
           (if (p = cleanup_filename tok MSICA_CLEANUP_ACTION_COMMIT
                 \<or> p = cleanup_filename tok MSICA_CLEANUP_ACTION_ROLLBACK \<or> p = tok)
               \<and> \<not> DeleteFile_fails plat p
            then None
            else files (after_run plat
              (seq_cleanup session MSICA_CLEANUP_ACTION_ROLLBACK
                 @ [file_delete_op (cleanup_filename tok MSICA_CLEANUP_ACTION_COMMIT)])
              (openvpnmsica_session_init True False) w1) p))"
proof -
  define w2 where "w2 = log_call (Call_seq_load tok) (log_call (Call_CreateFile tok) w)"
  define w3' where "w3' = w3\<lparr>calls := calls w2 @ [Call_seq_process seq False]\<rparr>"
  define rbseq where "rbseq = seq_cleanup session MSICA_CLEANUP_ACTION_ROLLBACK
      @ [file_delete_op (cleanup_filename tok MSICA_CLEANUP_ACTION_COMMIT)]"
  define cm where "cm = cleanup_filename tok MSICA_CLEANUP_ACTION_COMMIT"
  define rb where "rb = cleanup_filename tok MSICA_CLEANUP_ACTION_ROLLBACK"
  have run: "seq_process plat seq (openvpnmsica_session_init False False) w2
      = (uiResult, session, w3')"
    using executed by (simp add: seq_process_def w2_def w3'_def openvpnmsica_session_init_def)
  from save_or_cleanup_failed [OF len failed, where r = uiResult and w = w3'] obtain w1 l where
    c1: "calls w1 = calls w3' @ l"
    and d1: "devices w1 = devices w3'" "properties w1 = properties w3'"
    and sc: "save_or_cleanup plat False tok uiResult session w3' =
         Some (uiResult, DeleteFile plat rb (DeleteFile plat cm
            ((after_run plat rbseq (openvpnmsica_session_init True False) w1)
               \<lparr>calls := calls w1 @ [Call_seq_process rbseq True]\<rparr>)))"
    unfolding rbseq_def cm_def rb_def by blast
  define X where "X = after_run plat rbseq (openvpnmsica_session_init True False) w1"
  define w' where "w' = DeleteFile plat tok (DeleteFile plat rb (DeleteFile plat cm
      (X\<lparr>calls := calls w1 @ [Call_seq_process rbseq True]\<rparr>)))"
  have res: "ProcessDeferredAction plat hInstall w = Some (uiResult, w')"
    using mode token exists opened loaded run sc
    by (simp add: ProcessDeferredAction_def CreateFile_existing_def w2_def w'_def X_def)
  have "calls w1 = calls w @ [Call_CreateFile tok, Call_seq_load tok, Call_seq_process seq False] @ l"
    using c1 by (simp add: w3'_def w2_def)
  moreover have "devices w1 = devices w3" "properties w1 = properties w3"
    using d1 by (simp_all add: w3'_def)
  moreover have "calls w' = calls w1 @ [Call_seq_process rbseq True, Call_DeleteFile cm,
      Call_DeleteFile rb, Call_DeleteFile tok]"
    by (simp add: w'_def)
  moreover have "devices w' = devices X" "properties w' = properties X"
    by (simp_all add: w'_def)
  moreover have "\<forall>p. files w' p =
      (if (p = cm \<or> p = rb \<or> p = tok) \<and> \<not> DeleteFile_fails plat p then None else files X p)"
    by (auto simp: w'_def files_DeleteFile)
  ultimately show ?thesis
    using res unfolding X_def rbseq_def cm_def rb_def by blast
qed

lemmas recording_defs = recording_platform_def recording_world_def example_deferred_def
  ERROR_ACCESS_DENIED_def ERROR_SUCCESS_def ERROR_INSTALL_FAILURE_def ERROR_FILE_NOT_FOUND_def
  ERROR_PATH_NOT_FOUND_def

lemmas name_defs = cleanup_filename_def PathFindExtension_def format_filename_ex_def szSuffix_def
  openvpnmsica_cleanup_action_seqs_def MAX_PATH_def MSICA_CLEANUP_ACTION_COUNT_def
  MSICA_CLEANUP_ACTION_COMMIT_def MSICA_CLEANUP_ACTION_ROLLBACK_def

lemma long_token_facts:
  "length long_token = 261" "long_token \<noteq> ''t.q''" "long_token \<noteq> ''u.q''"
  "long_token \<noteq> ''t-rb.q''" "long_token \<noteq> ''T/Uni1.tmp''" "long_token \<noteq> ''gone.q''"
  "long_token \<noteq> ''gone/t.q''"
proof -
  show len: "length long_token = 261" by (simp add: long_token_def)
  have ne: "\<And>s. length s \<noteq> 261 \<Longrightarrow> long_token \<noteq> s" using len by auto
  show "long_token \<noteq> ''t.q''" "long_token \<noteq> ''u.q''"
    "long_token \<noteq> ''t-rb.q''" "long_token \<noteq> ''T/Uni1.tmp''" "long_token \<noteq> ''gone.q''"
    "long_token \<noteq> ''gone/t.q''"
    by (rule ne, simp)+
qed

lemmas short_names_differ = long_token_facts(2-7) long_token_facts(2-7) [symmetric]

text \<open>
  C5, witness: the file \<open>gone.q\<close> does not exist and opening it gives
  \<open>ERROR_FILE_NOT_FOUND\<close>; the rollback invocation returns \<open>ERROR_SUCCESS\<close>, the
  other one \<open>ERROR_FILE_NOT_FOUND\<close>.
\<close>

theorem C5_missing_sequence_file_witness:
  "ProcessDeferredAction recording_platform (example_deferred True ''gone.q'') recording_world =
     Some (ERROR_SUCCESS, recording_world\<lparr>calls := [Call_CreateFile ''gone.q'']\<rparr>)
   \<and> ProcessDeferredAction recording_platform (example_deferred False ''gone.q'') recording_world =
     Some (ERROR_FILE_NOT_FOUND, recording_world\<lparr>calls := [Call_CreateFile ''gone.q'']\<rparr>)"
  using C5_missing_sequence_file [of "example_deferred True ''gone.q''" "''gone.q''"
      recording_world recording_platform]
    C5_missing_sequence_file [of "example_deferred False ''gone.q''" "''gone.q''"
      recording_world recording_platform]
  by (simp add: recording_defs short_names_differ)

text \<open>
  C5, as stated: a missing file makes a commit or rollback invocation return success.
  The file \<open>gone/t.q\<close> does not exist, the platform reports this with
  \<open>ERROR_PATH_NOT_FOUND\<close> because its directory is missing, and the rollback
  invocation returns \<open>ERROR_PATH_NOT_FOUND\<close>, which is not \<open>ERROR_SUCCESS\<close>.
\<close>

theorem C5_path_not_found_counterexample:
  "files recording_world ''gone/t.q'' = None
   \<and> ProcessDeferredAction recording_platform (example_deferred True ''gone/t.q'') recording_world
       = Some (ERROR_PATH_NOT_FOUND, recording_world\<lparr>calls := [Call_CreateFile ''gone/t.q'']\<rparr>)
   \<and> ERROR_PATH_NOT_FOUND \<noteq> ERROR_SUCCESS"
  by (simp add: ProcessDeferredAction_def CreateFile_existing_def log_call_def recording_defs
      short_names_differ)

text \<open>
  C6, witness: a rollback invocation on the file \<open>u.q\<close>, where running the sequence
  fails with \<open>ERROR_INSTALL_FAILURE\<close>: the invocation returns \<open>ERROR_SUCCESS\<close>, and the
  devices show the one run of the loaded sequence, continuing on error.
\<close>

theorem C6_cleanup_pass_witness:
  "\<exists>w'. ProcessDeferredAction recording_platform (example_deferred True ''u.q'') recording_world
           = Some (ERROR_SUCCESS, w')
      \<and> calls w' = [Call_CreateFile ''u.q'', Call_seq_load ''u.q'',
           Call_seq_process [msica_op_create_string msica_op_tap_interface_create 16384 ''A''] True,
           Call_DeleteFile ''u.q'']
      \<and> devices w' = [([msica_op_create_string msica_op_tap_interface_create 16384 ''A''], True)]
      \<and> files w' ''u.q'' = None
      \<and> fst (msica_op_seq_process recording_platform
           [msica_op_create_string msica_op_tap_interface_create 16384 ''A'']
           (openvpnmsica_session_init True False) recording_world) = ERROR_INSTALL_FAILURE"
proof -
  let ?seq = "[msica_op_create_string msica_op_tap_interface_create 16384 ''A'']"
  let ?w2 = "log_call (Call_seq_load ''u.q'') (log_call (Call_CreateFile ''u.q'') recording_world)"
  let ?run = "msica_op_seq_process recording_platform ?seq (openvpnmsica_session_init True False) ?w2"
  have run: "?run = (fst ?run, fst (snd ?run), snd (snd ?run))" by simp
  have w3: "devices (snd (snd ?run)) = [(?seq, True)]"
    "files (snd (snd ?run)) = files recording_world"
    by (simp_all add: recording_platform_def recording_world_def openvpnmsica_session_init_def
        log_call_def)
  have pre: "MsiGetMode_COMMIT (example_deferred True ''u.q'') \<or> MsiGetMode_ROLLBACK (example_deferred True ''u.q'')"
    "CustomActionData (example_deferred True ''u.q'') = (ERROR_SUCCESS, ''u.q'')"
    "files recording_world ''u.q'' = Some []" "CreateFile_error recording_platform ''u.q'' = ERROR_SUCCESS"
    "msica_op_seq_load recording_platform [] = (ERROR_SUCCESS, ?seq)"
    by (simp_all add: recording_defs short_names_differ)
  from C6_cleanup_pass [OF pre run]
  show ?thesis
    unfolding w3
    by (auto simp: recording_defs openvpnmsica_session_init_def)
qed

text \<open>
  C10, witness: an invocation on the file \<open>t.q\<close>, where the rollback cleanup sequence
  cannot be saved.
\<close>

theorem C10_input_file_deleted_witness:
  "\<exists>r w'. ProcessDeferredAction recording_platform (example_deferred False ''t.q'') recording_world
           = Some (r, w')
      \<and> (\<exists>pre. calls w' = pre @ [Call_DeleteFile ''t.q'']) \<and> files w' ''t.q'' = None"
  using C10_input_file_deleted [of "example_deferred False ''t.q''" "''t.q''" recording_world "[]"
      recording_platform]
  by (simp add: recording_defs MAX_PATH_def short_names_differ)

text \<open>
  C10, as stated: once the sequence is loaded the sequence file is deleted, and only a
  load failure leaves it. The file named by the token of 261 characters exists, is
  opened and loaded and its sequence is run; the name of the commit cleanup file then
  does not fit the buffer of \<^verbatim>\<open>_stprintf_s\<close>, and the custom action is stopped there,
  before any \<^verbatim>\<open>DeleteFile\<close>.
\<close>

theorem C10_long_token_counterexample:
  "files recording_world long_token = Some []
   \<and> CreateFile_error recording_platform long_token = ERROR_SUCCESS
   \<and> fst (msica_op_seq_load recording_platform []) = ERROR_SUCCESS
   \<and> ProcessDeferredAction recording_platform (example_deferred False long_token) recording_world
       = None"
proof -
  have "MAX_PATH < length long_token"
    by (simp add: long_token_facts MAX_PATH_def)
  then have "deferred_filename_ex long_token 0 = None"
    by (rule deferred_filename_ex_too_long) (simp add: MSICA_CLEANUP_ACTION_COUNT_def)
  then show ?thesis
    by (simp add: ProcessDeferredAction_def CreateFile_existing_def seq_process_def
        save_or_cleanup_def cleanup_actions_def MSICA_CLEANUP_ACTION_COUNT_def upt_rec
        recording_defs short_names_differ case_prod_beta)
qed

text \<open>
  C1, witness: the rollback cleanup file \<open>t-rb.q\<close> cannot be created. The devices show
  the run of the loaded sequence and then the run of the rollback cleanup sequence,
  continuing on error.
\<close>

theorem C1_persistence_failure_fallback_witness:
  "\<exists>w' pre. ProcessDeferredAction recording_platform (example_deferred False ''t.q'')
         recording_world = Some (ERROR_SUCCESS, w')
      \<and> calls w' = pre @
         [Call_seq_process
            [msica_op_create_string msica_op_tap_interface_delete_by_name 0 ''A'',
             msica_op_create_string msica_op_file_delete 0 ''t-cm.q''] True,
          Call_DeleteFile ''t-cm.q'', Call_DeleteFile ''t-rb.q'', Call_DeleteFile ''t.q'']
      \<and> devices w' =
         [([msica_op_create_string msica_op_tap_interface_create 16384 ''A''], False),
          ([msica_op_create_string msica_op_tap_interface_delete_by_name 0 ''A'',
            msica_op_create_string msica_op_file_delete 0 ''t-cm.q''], True)]
      \<and> files w' ''t-cm.q'' = None \<and> files w' ''t-rb.q'' = None \<and> files w' ''t.q'' = None"
proof -
  let ?seq = "[msica_op_create_string msica_op_tap_interface_create 16384 ''A'']"
  let ?rbseq = "[msica_op_create_string msica_op_tap_interface_delete_by_name 0 ''A'',
             msica_op_create_string msica_op_file_delete 0 ''t-cm.q'']"
  let ?w2 = "log_call (Call_seq_load ''t.q'') (log_call (Call_CreateFile ''t.q'') recording_world)"
  let ?session = "\<lparr>continue_on_error = False, rollback_enabled = False,
       seq_cleanup = (\<lambda>i. [])(MSICA_CLEANUP_ACTION_ROLLBACK :=
          [msica_op_create_string msica_op_tap_interface_delete_by_name 0 ''A''])\<rparr>"
  let ?w3 = "?w2\<lparr>devices := [(?seq, False)]\<rparr>"
  have cm: "cleanup_filename ''t.q'' MSICA_CLEANUP_ACTION_COMMIT = ''t-cm.q''"
    and rb: "cleanup_filename ''t.q'' MSICA_CLEANUP_ACTION_ROLLBACK = ''t-rb.q''"
    by (simp_all add: name_defs)
  have run: "msica_op_seq_process recording_platform ?seq (openvpnmsica_session_init False False) ?w2
      = (ERROR_SUCCESS, ?session, ?w3)"
    by (simp add: recording_platform_def recording_world_def openvpnmsica_session_init_def
        log_call_def)
  have rbseq: "seq_cleanup ?session MSICA_CLEANUP_ACTION_ROLLBACK @ [file_delete_op ''t-cm.q'']
      = ?rbseq"
    by (simp add: file_delete_op_def)
  have pre: "\<not> MsiGetMode_COMMIT (example_deferred False ''t.q'')"
    "\<not> MsiGetMode_ROLLBACK (example_deferred False ''t.q'')"
    "CustomActionData (example_deferred False ''t.q'') = (ERROR_SUCCESS, ''t.q'')"
    "length ''t.q'' \<le> MAX_PATH"
    "files recording_world ''t.q'' = Some []"
    "CreateFile_error recording_platform ''t.q'' = ERROR_SUCCESS"
    "msica_op_seq_load recording_platform [] = (ERROR_SUCCESS, ?seq)"
    by (simp_all add: recording_defs MAX_PATH_def short_names_differ)
  have failed: "persist_error recording_platform
         (seq_cleanup ?session MSICA_CLEANUP_ACTION_COMMIT
            @ [file_delete_op (cleanup_filename ''t.q'' MSICA_CLEANUP_ACTION_ROLLBACK)])
         (cleanup_filename ''t.q'' MSICA_CLEANUP_ACTION_COMMIT) \<noteq> ERROR_SUCCESS
       \<or> persist_error recording_platform
         (seq_cleanup ?session MSICA_CLEANUP_ACTION_ROLLBACK
            @ [file_delete_op (cleanup_filename ''t.q'' MSICA_CLEANUP_ACTION_COMMIT)])
         (cleanup_filename ''t.q'' MSICA_CLEANUP_ACTION_ROLLBACK) \<noteq> ERROR_SUCCESS"
    unfolding cm rb by (simp add: persist_error_def recording_defs)
  from C1_persistence_failure_fallback [OF pre run failed]
  obtain w1 l w' where
    res: "ProcessDeferredAction recording_platform (example_deferred False ''t.q'')
         recording_world = Some (ERROR_SUCCESS, w')"
    and d1: "devices w1 = devices ?w3"
    and c': "calls w' = calls w1 @ [Call_seq_process ?rbseq True,
          Call_DeleteFile ''t-cm.q'', Call_DeleteFile ''t-rb.q'', Call_DeleteFile ''t.q'']"
    and d': "devices w' = devices (after_run recording_platform ?rbseq
            (openvpnmsica_session_init True False) w1)"
    and f': "\<forall>p. files w' p =
           (if (p = ''t-cm.q'' \<or> p = ''t-rb.q'' \<or> p = ''t.q'')
               \<and> \<not> DeleteFile_fails recording_platform p
            then None
            else files (after_run recording_platform ?rbseq
              (openvpnmsica_session_init True False) w1) p)"
    unfolding cm rb rbseq by blast
  have "devices w' = [(?seq, False), (?rbseq, True)]"
    using d' d1
    by (simp add: after_run_def recording_platform_def openvpnmsica_session_init_def)
  moreover have "files w' ''t-cm.q'' = None \<and> files w' ''t-rb.q'' = None \<and> files w' ''t.q'' = None"
    using f' by (simp add: recording_platform_def)
  ultimately show ?thesis using res c' by blast
qed

text \<open>
  C1, as stated: the invocation returns the persistence failure code. Persisting the
  rollback cleanup sequence fails with \<open>ERROR_ACCESS_DENIED\<close>, and the invocation
  returns \<open>ERROR_SUCCESS\<close>, the result of running the loaded sequence.
\<close>

theorem C1_returns_execution_result_counterexample:
  "persist_error recording_platform
       [msica_op_create_string msica_op_tap_interface_delete_by_name 0 ''A'',
        msica_op_create_string msica_op_file_delete 0 ''t-cm.q''] ''t-rb.q'' = ERROR_ACCESS_DENIED
   \<and> ERROR_ACCESS_DENIED \<noteq> ERROR_SUCCESS
   \<and> map_option fst
        (ProcessDeferredAction recording_platform (example_deferred False ''t.q'') recording_world)
       = Some ERROR_SUCCESS"
  by (simp add: ProcessDeferredAction_def recording_defs CreateFile_existing_def log_call_def
      seq_process_def openvpnmsica_session_init_def save_or_cleanup_def cleanup_actions_def
      upt_rec deferred_filename_ex_def stprintf_s_def name_defs msica_op_seq_add_tail_def
      CreateFile_always_def seq_save_def cleanup_session_def DeleteFile_def persist_error_def
      short_names_differ)

subsection \<open>Planning: auxiliary facts\<close>

lemmas row_defs = record_read_def iInstalled_of_def iAction_of_def szDisplayName_of_def
  condition_value_def condition_read_def to_be_removed_def to_be_installed_def condition_true_def
  create_op_def delete_op_def

lemma evaluate_record_uninstall:
  "snd (evaluate_record h f e) 1 =
     (if record_read h f \<and> to_be_removed h f then e 1 @ [delete_op f] else e 1)"
  by (auto simp: evaluate_record_def row_defs msica_op_seq_add_tail_def INSTALLSTATE_BROKEN_def
      INSTALLSTATE_LOCAL_def split: prod.splits MSICONDITION.splits)

lemma evaluate_record_install:
  "snd (evaluate_record h f e) 0 =
     (if record_read h f \<and> to_be_installed h f \<and> condition_read f \<and> condition_true h f
      then e 0 @ [create_op f] else e 0)"
  by (auto simp: evaluate_record_def row_defs msica_op_seq_add_tail_def INSTALLSTATE_BROKEN_def
      INSTALLSTATE_LOCAL_def split: prod.splits MSICONDITION.splits)

lemma evaluate_record_success:
  "fst (evaluate_record h f e) = ERROR_SUCCESS \<Longrightarrow>
     record_read h f \<and> (to_be_installed h f \<longrightarrow> condition_read f)"
  by (auto simp: evaluate_record_def row_defs INSTALLSTATE_BROKEN_def
      INSTALLSTATE_LOCAL_def split: prod.splits MSICONDITION.splits if_splits)

lemma fetch_loop_success:
  "fetch_loop h fs e = (ERROR_SUCCESS, e') \<Longrightarrow>
     e' 0 = e 0 @ map create_op (filter (\<lambda>f. to_be_installed h f \<and> condition_true h f) (rows fs))
     \<and> e' 1 = e 1 @ map delete_op (filter (to_be_removed h) (rows fs))"
proof (induction fs arbitrary: e)
  case Nil
  then show ?case by (simp add: rows_def)
next
  case (Cons f fs)
  show ?case
  proof (cases "MsiViewFetch f = ERROR_NO_MORE_ITEMS")
    case True
    with Cons.prems show ?thesis by (simp add: rows_def)
  next
    case False
    obtain r e1 where ev: "evaluate_record h f e = (r, e1)"
      by (cases "evaluate_record h f e") auto
    from Cons.prems False ev have r: "r = ERROR_SUCCESS"
      and rest: "fetch_loop h fs e1 = (ERROR_SUCCESS, e')"
      by (auto split: if_splits)
    from ev r evaluate_record_success [of h f e]
    have ok: "record_read h f" "to_be_installed h f \<longrightarrow> condition_read f" by auto
    from ev evaluate_record_install [of h f e] evaluate_record_uninstall [of h f e] ok
    have e1: "e1 0 = (if to_be_installed h f \<and> condition_true h f then e 0 @ [create_op f] else e 0)"
      "e1 1 = (if to_be_removed h f then e 1 @ [delete_op f] else e 1)"
      by auto
    from Cons.IH [OF rest] e1 False show ?thesis by (simp add: rows_def)
  qed
qed

lemma exec_seq_init_values:
  "exec_seq_init b 0 = [msica_op_create_bool msica_op_rollback_enable 0 b]"
  "exec_seq_init b 1 = [msica_op_create_bool msica_op_rollback_enable 0 b]"
  by (simp_all add: exec_seq_init_def szActionNames_def upt_rec msica_op_seq_add_tail_def)

lemma codes_distinct:
  "ERROR_NO_MORE_ITEMS \<noteq> ERROR_SUCCESS" "ERROR_INVALID_FIELD \<noteq> ERROR_SUCCESS"
  "ERROR_INVALID_FIELD \<noteq> ERROR_INSTALL_FAILURE" "ERROR_INVALID_FIELD \<noteq> ERROR_INSTALL_USEREXIT"
  "ERROR_INSTALL_USEREXIT \<noteq> ERROR_SUCCESS" "ERROR_INSTALL_USEREXIT \<noteq> ERROR_INSTALL_FAILURE"
  by (simp_all add: ERROR_NO_MORE_ITEMS_def ERROR_SUCCESS_def ERROR_INVALID_FIELD_def
      ERROR_INSTALL_FAILURE_def ERROR_INSTALL_USEREXIT_def)

lemma fetch_loop_append:
  "\<forall>g\<in>set before. MsiViewFetch g = ERROR_SUCCESS \<Longrightarrow>
   fetch_loop h before e = (ERROR_SUCCESS, e1) \<Longrightarrow>
   fetch_loop h (before @ rest) e = fetch_loop h rest e1"
proof (induction before arbitrary: e)
  case Nil
  then show ?case by simp
next
  case (Cons g gs)
  obtain r e2 where ev: "evaluate_record h g e = (r, e2)"
    by (cases "evaluate_record h g e") auto
  from Cons.prems have g: "MsiViewFetch g = ERROR_SUCCESS" by simp
  with Cons.prems(2) ev codes_distinct(1) have r: "r = ERROR_SUCCESS"
    and gs: "fetch_loop h gs e2 = (ERROR_SUCCESS, e1)"
    by (auto split: if_splits)
  from Cons.prems(1) have "\<forall>g\<in>set gs. MsiViewFetch g = ERROR_SUCCESS" by simp
  from Cons.IH [OF this gs] g ev r codes_distinct(1) show ?case by simp
qed

lemma evaluate_record_condition_error:
  assumes "record_read h f" "to_be_installed h f" "condition_read f"
    and "condition_value h f = MSICONDITION_ERROR"
  shows "evaluate_record h f e = (ERROR_INVALID_FIELD, e)"
  using assms
  by (auto simp: evaluate_record_def row_defs INSTALLSTATE_BROKEN_def INSTALLSTATE_LOCAL_def
      split: prod.splits)

lemma evaluate_record_cancel:
  assumes "record_read h f"
    and "to_be_removed h f \<or> (to_be_installed h f \<and> condition_read f \<and> condition_true h f)"
    and "MsiProcessMessage f = IDCANCEL"
  shows "fst (evaluate_record h f e) = ERROR_INSTALL_USEREXIT"
  using assms
  by (auto simp: evaluate_record_def case_prod_beta row_defs add_ticks_def
      INSTALLSTATE_BROKEN_def INSTALLSTATE_LOCAL_def split: MSICONDITION.splits)

lemma EvaluateTAPInterfaces_loop_failed:
  assumes "view_opened h"
    and "fetch_loop h (view h) (exec_seq_init (enable_rollback h)) = (r, e)"
    and "r \<noteq> ERROR_SUCCESS"
  shows "EvaluateTAPInterfaces plat h w = Some (r, w)"
  using assms by (simp add: EvaluateTAPInterfaces_def view_opened_def)

subsection \<open>C8: a condition cannot be evaluated\<close>

text \<open>
  C8: planning has reached the loop, the records before \<open>f\<close> were fetched and processed
  with \<open>ERROR_SUCCESS\<close>, leaving the sequences \<open>exec_seq\<close>, and the condition of \<open>f\<close>
  is evaluated (the record was fetched and read, its component is going to be present,
  the condition text was read) with the value \<open>MSICONDITION_ERROR\<close>. Then the loop
  ends with \<open>ERROR_INVALID_FIELD\<close> and with the sequences \<open>exec_seq\<close>, so nothing
  was added for \<open>f\<close>; this holds whatever records follow \<open>f\<close>;
  \<^verbatim>\<open>EvaluateTAPInterfaces\<close> returns \<open>ERROR_INVALID_FIELD\<close> and leaves the world as it
  was; and \<open>ERROR_INVALID_FIELD\<close> is neither \<open>ERROR_SUCCESS\<close> nor
  \<open>ERROR_INSTALL_FAILURE\<close> nor \<open>ERROR_INSTALL_USEREXIT\<close>.
\<close>

theorem C8_condition_evaluation_fails:
  assumes opened: "view_opened h"
    and view: "view h = before @ f # rest"
    and before: "\<forall>g\<in>set before. MsiViewFetch g = ERROR_SUCCESS"
      "fetch_loop h before (exec_seq_init (enable_rollback h)) = (ERROR_SUCCESS, exec_seq)"
    and row: "MsiViewFetch f = ERROR_SUCCESS" "record_read h f" "to_be_installed h f"
    and condition: "condition_read f" "condition_value h f = MSICONDITION_ERROR"
  shows "EvaluateTAPInterfaces plat h w = Some (ERROR_INVALID_FIELD, w)
     \<and> fetch_loop h (view h) (exec_seq_init (enable_rollback h)) = (ERROR_INVALID_FIELD, exec_seq)
     \<and> ERROR_INVALID_FIELD \<noteq> ERROR_SUCCESS
     \<and> ERROR_INVALID_FIELD \<noteq> ERROR_INSTALL_FAILURE
     \<and> ERROR_INVALID_FIELD \<noteq> ERROR_INSTALL_USEREXIT"
proof -
  have "fetch_loop h (f # rest) exec_seq = (ERROR_INVALID_FIELD, exec_seq)"
    using row(1) evaluate_record_condition_error [OF row(2,3) condition] codes_distinct(1,2)
    by simp
  with fetch_loop_append [OF before, of "f # rest"] view
  have loop: "fetch_loop h (view h) (exec_seq_init (enable_rollback h))
      = (ERROR_INVALID_FIELD, exec_seq)" by simp
  from EvaluateTAPInterfaces_loop_failed [OF opened loop codes_distinct(2)] loop codes_distinct
  show ?thesis by simp
qed

subsection \<open>C9: the user cancels\<close>

text \<open>
  C9: planning has reached the loop, the records before \<open>f\<close> were fetched and processed
  with \<open>ERROR_SUCCESS\<close>, and \<open>f\<close> qualifies (it was fetched and read, and either its
  component is going to be removed, or it is going to be present and its condition was
  read and holds). If the installer answers \<open>IDCANCEL\<close> to the progress message that
  adds the ticks of \<open>f\<close>, \<^verbatim>\<open>EvaluateTAPInterfaces\<close> returns
  \<open>ERROR_INSTALL_USEREXIT\<close>, which is neither \<open>ERROR_INSTALL_FAILURE\<close> nor
  \<open>ERROR_SUCCESS\<close>, and leaves the world as it was.
\<close>

theorem C9_user_cancels:
  assumes opened: "view_opened h"
    and view: "view h = before @ f # rest"
    and before: "\<forall>g\<in>set before. MsiViewFetch g = ERROR_SUCCESS"
      "fetch_loop h before (exec_seq_init (enable_rollback h)) = (ERROR_SUCCESS, exec_seq)"
    and row: "MsiViewFetch f = ERROR_SUCCESS" "record_read h f"
    and qualifies:
      "to_be_removed h f \<or> (to_be_installed h f \<and> condition_read f \<and> condition_true h f)"
    and cancel: "MsiProcessMessage f = IDCANCEL"
  shows "EvaluateTAPInterfaces plat h w = Some (ERROR_INSTALL_USEREXIT, w)
     \<and> ERROR_INSTALL_USEREXIT \<noteq> ERROR_INSTALL_FAILURE
     \<and> ERROR_INSTALL_USEREXIT \<noteq> ERROR_SUCCESS"
proof -
  obtain e2 where ev: "evaluate_record h f exec_seq = (ERROR_INSTALL_USEREXIT, e2)"
    using evaluate_record_cancel [OF row(2) qualifies cancel, of exec_seq]
    by (cases "evaluate_record h f exec_seq") auto
  have "fetch_loop h (f # rest) exec_seq = (ERROR_INSTALL_USEREXIT, e2)"
    using row(1) ev codes_distinct(1,5) by simp
  with fetch_loop_append [OF before, of "f # rest"] view
  have loop: "fetch_loop h (view h) (exec_seq_init (enable_rollback h))
      = (ERROR_INSTALL_USEREXIT, e2)" by simp
  from EvaluateTAPInterfaces_loop_failed [OF opened loop codes_distinct(5)] codes_distinct
  show ?thesis by simp
qed

lemma saved_seqs_append: "saved_seqs (as @ bs) = saved_seqs as @ saved_seqs bs"
  by (induction as rule: saved_seqs.induct) simp_all

lemma calls_MsiSetProperty:
  "calls (snd (MsiSetProperty plat n v w)) = calls w @ [Call_MsiSetProperty n v]"
  and files_MsiSetProperty: "files (snd (MsiSetProperty plat n v w)) = files w"
  by (simp_all add: MsiSetProperty_def Let_def log_call_def)

lemma set_cleanup_properties_frame:
  "set_cleanup_properties plat szProperty name is w = Some (r, w1) \<Longrightarrow>
     files w1 = files w \<and> (\<exists>l. calls w1 = calls w @ l \<and> saved_seqs l = [])"
proof (induction "is" arbitrary: w)
  case Nil
  then show ?case by simp
next
  case (Cons i "is")
  from Cons.prems obtain nx where nx: "setup_filename_ex name i = Some nx"
    by (cases "setup_filename_ex name i") auto
  obtain e w2 where sp: "MsiSetProperty plat (szProperty @ szName i) nx w = (e, w2)"
    by (cases "MsiSetProperty plat (szProperty @ szName i) nx w") auto
  from calls_MsiSetProperty [of plat "szProperty @ szName i" nx w]
    files_MsiSetProperty [of plat "szProperty @ szName i" nx w] sp
  have w2: "calls w2 = calls w @ [Call_MsiSetProperty (szProperty @ szName i) nx]" "files w2 = files w"
    by simp_all
  show ?case
  proof (cases "e = ERROR_SUCCESS")
    case False
    with Cons.prems nx sp have "w1 = w2" by simp
    with w2 show ?thesis by simp
  next
    case True
    with Cons.prems nx sp have "set_cleanup_properties plat szProperty name is w2 = Some (r, w1)"
      by simp
    from Cons.IH [OF this] w2 show ?thesis by (auto simp: saved_seqs_append)
  qed
qed

lemma set_cleanup_properties_returns:
  "length name \<le> MAX_PATH \<Longrightarrow> \<exists>r w1. set_cleanup_properties plat szProperty name is w = Some (r, w1)"
proof (induction "is" arbitrary: w)
  case Nil
  then show ?case by simp
next
  case (Cons i "is")
  obtain e w2 where sp: "MsiSetProperty plat (szProperty @ szName i)
      (format_filename_ex name (PathFindExtension name) (szSuffix i)) w = (e, w2)"
    by (cases "MsiSetProperty plat (szProperty @ szName i)
      (format_filename_ex name (PathFindExtension name) (szSuffix i)) w") auto
  from Cons.IH [OF Cons.prems, of w2] sp setup_filename_ex_fits [OF Cons.prems, of i]
  show ?case by simp
qed

lemma GetTempFileName_effect:
  assumes "GetTempFileName plat dir prefix w = (e, n, w1)"
  shows "calls w1 = calls w @ [Call_GetTempFileName dir prefix]"
    and "files w1 = (if e = ERROR_SUCCESS then (files w)(n \<mapsto> []) else files w)"
    and "(e, n) = GetTempFileName_reply plat dir prefix (files w)"
  using assms
  by (auto simp: GetTempFileName_def Let_def log_call_def split: prod.splits if_splits)

lemma setup_sequence_filename_frame:
  assumes contract: "GetTempFileName_contract plat"
    and res: "openvpnmsica_setup_sequence_filename plat szProperty w = Some (r, n, w1)"
  shows "dom (files w1) \<subseteq> dom (files w) \<union> ({n} - {[]})"
    and "\<exists>l. calls w1 = calls w @ l \<and> saved_seqs l = []"
    and "r = ERROR_SUCCESS \<longrightarrow> n \<noteq> []"
proof -
  obtain e1 b1 where tp: "GetTempPath_reply plat = (e1, b1)"
    by (cases "GetTempPath_reply plat") auto
  show "dom (files w1) \<subseteq> dom (files w) \<union> ({n} - {[]})"
    and "\<exists>l. calls w1 = calls w @ l \<and> saved_seqs l = []"
    and "r = ERROR_SUCCESS \<longrightarrow> n \<noteq> []"
  proof (atomize (full), cases "e1 = ERROR_SUCCESS")
    case False
    with res tp show "dom (files w1) \<subseteq> dom (files w) \<union> ({n} - {[]})
      \<and> (\<exists>l. calls w1 = calls w @ l \<and> saved_seqs l = []) \<and> (r = ERROR_SUCCESS \<longrightarrow> n \<noteq> [])"
      by (auto simp: openvpnmsica_setup_sequence_filename_def)
  next
    case e1: True
    obtain e2 n2 w2 where tf: "GetTempFileName plat b1 szProperty w = (e2, n2, w2)"
      by (cases "GetTempFileName plat b1 szProperty w") auto
    note eff = GetTempFileName_effect [OF tf]
    from eff(3) contract have n2: "e2 = ERROR_SUCCESS \<longrightarrow> n2 \<noteq> []"
      unfolding GetTempFileName_contract_def by (metis fst_conv snd_conv)
    show "dom (files w1) \<subseteq> dom (files w) \<union> ({n} - {[]})
      \<and> (\<exists>l. calls w1 = calls w @ l \<and> saved_seqs l = []) \<and> (r = ERROR_SUCCESS \<longrightarrow> n \<noteq> [])"
    proof (cases "e2 = ERROR_SUCCESS")
      case False
      with res tp e1 tf eff show ?thesis
        by (auto simp: openvpnmsica_setup_sequence_filename_def)
    next
      case e2: True
      obtain e3 w3 where sp: "MsiSetProperty plat szProperty n2 w2 = (e3, w3)"
        by (cases "MsiSetProperty plat szProperty n2 w2") auto
      from calls_MsiSetProperty [of plat szProperty n2 w2] files_MsiSetProperty [of plat szProperty n2 w2] sp
      have w3: "calls w3 = calls w2 @ [Call_MsiSetProperty szProperty n2]" "files w3 = files w2"
        by simp_all
      show ?thesis
      proof (cases "e3 = ERROR_SUCCESS")
        case False
        with res tp e1 tf e2 sp have "n = n2" "w1 = w3" "r = e3"
          by (auto simp: openvpnmsica_setup_sequence_filename_def)
        with False w3 eff e2 n2 show ?thesis by auto
      next
        case e3: True
        with res tp e1 tf e2 sp obtain r4 w4 where
          cp: "set_cleanup_properties plat szProperty n2 cleanup_actions w3 = Some (r4, w4)"
          and eqs: "n = n2" "w1 = w4" "r = r4"
          by (auto simp: openvpnmsica_setup_sequence_filename_def split: option.splits)
        from set_cleanup_properties_frame [OF cp] w3 eff e2 n2 eqs show ?thesis
          by (auto simp: saved_seqs_append)
      qed
    qed
  qed
qed

lemma setup_sequence_filename_returns:
  assumes contract: "GetTempFileName_contract plat"
  shows "\<exists>r n w1. openvpnmsica_setup_sequence_filename plat szProperty w = Some (r, n, w1)"
proof -
  obtain e1 b1 where tp: "GetTempPath_reply plat = (e1, b1)"
    by (cases "GetTempPath_reply plat") auto
  obtain e2 n2 w2 where tf: "GetTempFileName plat b1 szProperty w = (e2, n2, w2)"
    by (cases "GetTempFileName plat b1 szProperty w") auto
  obtain e3 w3 where sp: "MsiSetProperty plat szProperty n2 w2 = (e3, w3)"
    by (cases "MsiSetProperty plat szProperty n2 w2") auto
  from GetTempFileName_effect(3) [OF tf] contract have "e2 = ERROR_SUCCESS \<longrightarrow> length n2 \<le> MAX_PATH"
    unfolding GetTempFileName_contract_def by (metis fst_conv snd_conv)
  with set_cleanup_properties_returns [of n2 plat szProperty cleanup_actions w3] tp tf sp
  show ?thesis
    by (auto simp: openvpnmsica_setup_sequence_filename_def)
qed

lemma CreateFile_always_effect:
  assumes "CreateFile_always plat n w = (e, w1)"
  shows "calls w1 = calls w @ [Call_CreateFile n]"
    and "dom (files w1) \<subseteq> insert n (dom (files w))"
  using assms by (auto simp: CreateFile_always_def Let_def log_call_def split: if_splits)

lemma seq_save_effect:
  assumes "seq_save plat seq n w = (e, w1)"
  shows "calls w1 = calls w @ [Call_seq_save n seq]"
    and "dom (files w1) = insert n (dom (files w))"
  using assms by (auto simp: seq_save_def Let_def log_call_def split: prod.splits)

lemma write_sequence_files_frame:
  assumes contract: "GetTempFileName_contract plat"
  shows "distinct is \<Longrightarrow>
    \<exists>r names' w1. write_sequence_files plat is exec_seq names w = Some (r, names', w1)
      \<and> dom (files w1) \<subseteq> dom (files w) \<union> {names' i | i. i \<in> set is \<and> names' i \<noteq> []}
      \<and> (\<forall>j. j \<notin> set is \<longrightarrow> names' j = names j)
      \<and> (\<exists>l. calls w1 = calls w @ l
            \<and> (r = ERROR_SUCCESS \<longrightarrow> saved_seqs l = map exec_seq is))"
proof (induction "is" arbitrary: names w)
  case Nil
  then show ?case by simp
next
  case (Cons i "is")
  from setup_sequence_filename_returns [OF contract, of "szActionNames ! i" w]
  obtain r0 n w1 where
    su: "openvpnmsica_setup_sequence_filename plat (szActionNames ! i) w = Some (r0, n, w1)"
    by blast
  note fr = setup_sequence_filename_frame [OF contract su]
  from fr(2) obtain l1 where l1: "calls w1 = calls w @ l1" "saved_seqs l1 = []" by blast
  let ?names = "names(i := n)"
  have named: "{n} - {[]} \<subseteq> {?names j | j. j \<in> set (i # is) \<and> ?names j \<noteq> []}"
    by force
  have kept: "\<forall>j. j \<notin> set (i # is) \<longrightarrow> ?names j = names j"
    by simp
  show ?case
  proof (cases "r0 = ERROR_SUCCESS")
    case False
    with su have "write_sequence_files plat (i # is) exec_seq names w = Some (r0, ?names, w1)"
      by simp
    moreover from fr(1) named have "dom (files w1) \<subseteq> dom (files w)
        \<union> {?names j | j. j \<in> set (i # is) \<and> ?names j \<noteq> []}" by blast
    ultimately show ?thesis using l1 False kept by blast
  next
    case r0: True
    with fr(3) have n: "n \<noteq> []" by simp
    obtain e w2 where cf: "CreateFile_always plat n w1 = (e, w2)"
      by (cases "CreateFile_always plat n w1") auto
    note cfe = CreateFile_always_effect [OF cf]
    show ?thesis
    proof (cases "e = ERROR_SUCCESS")
      case False
      with su r0 cf
      have "write_sequence_files plat (i # is) exec_seq names w = Some (e, ?names, w2)"
        by simp
      moreover from fr(1) cfe(2) named n have "dom (files w2) \<subseteq> dom (files w)
          \<union> {?names j | j. j \<in> set (i # is) \<and> ?names j \<noteq> []}" by blast
      moreover have "calls w2 = calls w @ (l1 @ [Call_CreateFile n])"
        using l1 cfe(1) by simp
      ultimately show ?thesis using False kept by blast
    next
      case e: True
      obtain r3 w3 where sv: "seq_save plat (exec_seq i) n w2 = (r3, w3)"
        by (cases "seq_save plat (exec_seq i) n w2") auto
      note sve = seq_save_effect [OF sv]
      have dom3: "dom (files w3) \<subseteq> insert n (dom (files w))"
        using fr(1) cfe(2) sve(2) by blast
      have calls3: "calls w3 = calls w @ (l1 @ [Call_CreateFile n, Call_seq_save n (exec_seq i)])"
        using l1 cfe(1) sve(1) by simp
      show ?thesis
      proof (cases "r3 = ERROR_SUCCESS")
        case False
        with su r0 cf e sv
        have "write_sequence_files plat (i # is) exec_seq names w = Some (r3, ?names, w3)"
          by simp
        moreover from dom3 named n have "dom (files w3) \<subseteq> dom (files w)
            \<union> {?names j | j. j \<in> set (i # is) \<and> ?names j \<noteq> []}" by blast
        ultimately show ?thesis using calls3 False kept by blast
      next
        case r3: True
        from Cons.prems have d: "distinct is" and i: "i \<notin> set is" by simp_all
        from Cons.IH [OF d, of ?names w3] obtain r names' w4 l where
          rest: "write_sequence_files plat is exec_seq ?names w3 = Some (r, names', w4)"
          and dom4: "dom (files w4) \<subseteq> dom (files w3)
              \<union> {names' j | j. j \<in> set is \<and> names' j \<noteq> []}"
          and keep: "\<forall>j. j \<notin> set is \<longrightarrow> names' j = ?names j"
          and calls4: "calls w4 = calls w3 @ l"
          and saved4: "r = ERROR_SUCCESS \<longrightarrow> saved_seqs l = map exec_seq is"
          by blast
        from su r0 cf e sv r3 rest
        have res: "write_sequence_files plat (i # is) exec_seq names w = Some (r, names', w4)"
          by simp
        from keep i have ni: "names' i = n" by simp
        define S where "S = {names' j | j. j \<in> set (i # is) \<and> names' j \<noteq> []}"
        define T where "T = {names' j | j. j \<in> set is \<and> names' j \<noteq> []}"
        have "n \<in> S" unfolding S_def using ni n by force
        moreover have "T \<subseteq> S" unfolding S_def T_def by force
        moreover have "dom (files w4) \<subseteq> dom (files w3) \<union> T"
          using dom4 unfolding T_def .
        ultimately have "dom (files w4) \<subseteq> dom (files w) \<union> S"
          using dom3 by blast
        then have "dom (files w4) \<subseteq> dom (files w)
            \<union> {names' j | j. j \<in> set (i # is) \<and> names' j \<noteq> []}"
          unfolding S_def .
        moreover have "\<forall>j. j \<notin> set (i # is) \<longrightarrow> names' j = names j"
          using keep by simp
        moreover have "calls w4 = calls w
            @ (l1 @ [Call_CreateFile n, Call_seq_save n (exec_seq i)] @ l)"
          using calls3 calls4 by simp
        moreover have "r = ERROR_SUCCESS \<longrightarrow>
            saved_seqs (l1 @ [Call_CreateFile n, Call_seq_save n (exec_seq i)] @ l)
              = map exec_seq (i # is)"
          using saved4 l1(2) by (simp add: saved_seqs_append)
        ultimately show ?thesis using res by blast
      qed
    qed
  qed
qed

lemma delete_sequence_files_effect:
  "calls (delete_sequence_files plat js names w)
     = calls w @ map Call_DeleteFile (filter (\<lambda>n. n \<noteq> []) (map names js))
   \<and> ((\<forall>p. \<not> DeleteFile_fails plat p) \<longrightarrow>
        dom (files (delete_sequence_files plat js names w))
          = dom (files w) - {names j | j. j \<in> set js \<and> names j \<noteq> []})"
proof (induction js arbitrary: w)
  case Nil
  then show ?case by simp
next
  case (Cons j js)
  let ?w = "if names j \<noteq> [] then DeleteFile plat (names j) w else w"
  have step: "delete_sequence_files plat (j # js) names w = delete_sequence_files plat js names ?w"
    by simp
  have c: "calls ?w = calls w @ map Call_DeleteFile (filter (\<lambda>n. n \<noteq> []) [names j])"
    by simp
  have f: "(\<forall>p. \<not> DeleteFile_fails plat p) \<longrightarrow>
      dom (files ?w) = dom (files w) - {n. n = names j \<and> n \<noteq> []}"
    by (auto simp: files_DeleteFile dom_def)
  from Cons.IH [of ?w] c f show ?case
    unfolding step by auto
qed

lemma action_indices: "[0 ..< length szActionNames] = [0, 1]"
  by (simp add: szActionNames_def upt_rec)

lemma fetch_loop_planned:
  assumes "fetch_loop h (view h) (exec_seq_init (enable_rollback h)) = (ERROR_SUCCESS, e)"
  shows "e 0 = planned_install_seq h" and "e 1 = planned_uninstall_seq h"
  using fetch_loop_success [OF assms] exec_seq_init_values [of "enable_rollback h"]
  by (simp_all add: planned_install_seq_def planned_uninstall_seq_def rollback_op_def)

lemma EvaluateTAPInterfaces_write_phase:
  assumes "view_opened h"
    and "fetch_loop h (view h) (exec_seq_init (enable_rollback h)) = (ERROR_SUCCESS, e)"
    and "write_sequence_files plat [0, 1] e (\<lambda>i. []) w = Some (r, names, w1)"
  shows "EvaluateTAPInterfaces plat h w =
     Some (r, if r \<noteq> ERROR_SUCCESS then delete_sequence_files plat [1, 0] names w1 else w1)"
proof -
  from assms(1) have table: "\<not> (MsiDatabaseIsTablePersistent h \<noteq> MSICONDITION_FALSE
      \<and> MsiDatabaseIsTablePersistent h \<noteq> MSICONDITION_TRUE)"
    and handles: "MsiGetActiveDatabase h \<noteq> 0" "MsiDatabaseOpenView h = ERROR_SUCCESS"
      "MsiViewExecute h = ERROR_SUCCESS" "MsiCreateRecord h \<noteq> 0"
    by (auto simp: view_opened_def)
  show ?thesis
    unfolding EvaluateTAPInterfaces_def action_indices
    using table handles
    by (auto simp add: assms(2) assms(3)
        simp del: write_sequence_files.simps delete_sequence_files.simps One_nat_def)
qed

lemma totlower_y: "totlower c = CHR ''y'' \<longleftrightarrow> c = CHR ''y'' \<or> c = CHR ''Y''"
proof (cases "65 \<le> (of_char c :: nat) \<and> (of_char c :: nat) \<le> 90")
  case False
  then have "c \<noteq> CHR ''Y''" by auto
  with False show ?thesis by (auto simp: totlower_def)
next
  case True
  then have ny: "c \<noteq> CHR ''y''" by auto
  let ?d = "char_of (of_char c + (32::nat))"
  have "(of_char ?d :: nat) = (of_char c + 32) mod 256" by simp
  also have "\<dots> = of_char c + 32" using True by simp
  finally have d: "(of_char ?d :: nat) = of_char c + 32" .
  have "?d = CHR ''y'' \<longleftrightarrow> (of_char ?d :: nat) = of_char (CHR ''y'')"
    by (simp only: of_char_eq_iff)
  also have "\<dots> \<longleftrightarrow> (of_char c :: nat) = of_char (CHR ''Y'')"
    unfolding d by simp
  also have "\<dots> \<longleftrightarrow> c = CHR ''Y''"
    by (simp only: of_char_eq_iff)
  finally show ?thesis using True ny by (simp add: totlower_def)
qed

lemma enable_rollback_flag: "enable_rollback h = (\<not> rollback_disabled_by_property h)"
proof (cases "snd (RollbackDisabled h)")
  case Nil
  then show ?thesis
    by (simp add: enable_rollback_def rollback_disabled_by_property_def case_prod_beta totlower_y)
next
  case (Cons c cs)
  then show ?thesis
    by (auto simp: enable_rollback_def rollback_disabled_by_property_def case_prod_beta totlower_y)
qed

lemma EvaluateTAPInterfaces_saved:
  assumes opened: "view_opened h"
    and contract: "GetTempFileName_contract plat"
    and success: "map_option fst (EvaluateTAPInterfaces plat h w) = Some ERROR_SUCCESS"
  shows "\<exists>w' l. EvaluateTAPInterfaces plat h w = Some (ERROR_SUCCESS, w')
     \<and> calls w' = calls w @ l
     \<and> saved_seqs l = [planned_install_seq h, planned_uninstall_seq h]"
proof -
  obtain r e where loop: "fetch_loop h (view h) (exec_seq_init (enable_rollback h)) = (r, e)"
    by (cases "fetch_loop h (view h) (exec_seq_init (enable_rollback h))") auto
  have r: "r = ERROR_SUCCESS"
  proof (rule ccontr)
    assume "r \<noteq> ERROR_SUCCESS"
    from EvaluateTAPInterfaces_loop_failed [OF opened loop this, of plat w] success
    show False using \<open>r \<noteq> ERROR_SUCCESS\<close> by simp
  qed
  from write_sequence_files_frame [OF contract, of "[0, 1]" e "\<lambda>i. []" w]
  obtain r2 names w1 l where
    wr: "write_sequence_files plat [0, 1] e (\<lambda>i. []) w = Some (r2, names, w1)"
    and calls: "calls w1 = calls w @ l"
    and saved: "r2 = ERROR_SUCCESS \<longrightarrow> saved_seqs l = map e [0, 1]"
    by auto
  from EvaluateTAPInterfaces_write_phase [OF opened loop [unfolded r] wr] success
  have r2: "r2 = ERROR_SUCCESS" and res: "EvaluateTAPInterfaces plat h w = Some (ERROR_SUCCESS, w1)"
    by (auto split: if_splits)
  from saved r2 fetch_loop_planned [OF loop [unfolded r]]
  have "saved_seqs l = [planned_install_seq h, planned_uninstall_seq h]" by simp
  with res calls show ?thesis by simp
qed

subsection \<open>C4: the sequences a plan saves\<close>

text \<open>
  C4, amended: when planning has reached the loop and \<^verbatim>\<open>EvaluateTAPInterfaces\<close> returns
  \<open>ERROR_SUCCESS\<close>, it has saved exactly two sequences, in this order:
  \<^item> the install sequence: the rollback enabled state, then, in the order of the view,
    one creation of the named interface for each record whose component has the action
    state local, source or default (it is installed or reinstalled in this session) and
    whose condition holds;
  \<^item> the uninstall sequence: the rollback enabled state, then, in the order of the view,
    one deletion by name for each record whose component has an action state above
    \<open>INSTALLSTATE_BROKEN\<close> and below \<open>INSTALLSTATE_LOCAL\<close>.
  Both start with the same single operation \<^verbatim>\<open>msica_op_rollback_enable\<close>; its value is
  false when the user has disabled rollback with the property \<open>RollbackDisabled\<close> (a
  number other than zero, or a text that starts with \<open>y\<close> or \<open>Y\<close>), and true otherwise.
  A record with an empty condition text has a condition that holds (the installer answers
  \<open>MSICONDITION_NONE\<close> to an empty text). A record whose component stays installed with
  no action taken on it adds nothing to either sequence.
\<close>

theorem C4_planned_journals:
  assumes opened: "view_opened h"
    and contract: "GetTempFileName_contract plat"
    and success: "map_option fst (EvaluateTAPInterfaces plat h w) = Some ERROR_SUCCESS"
  shows "\<exists>w' l. EvaluateTAPInterfaces plat h w = Some (ERROR_SUCCESS, w')
     \<and> calls w' = calls w @ l
     \<and> saved_seqs l =
         [msica_op_create_bool msica_op_rollback_enable 0 (\<not> rollback_disabled_by_property h)
            # map create_op
                (filter (\<lambda>f. INSTALLSTATE_LOCAL \<le> iAction_of h f \<and> condition_true h f)
                   (rows (view h))),
          msica_op_create_bool msica_op_rollback_enable 0 (\<not> rollback_disabled_by_property h)
            # map delete_op
                (filter (\<lambda>f. INSTALLSTATE_BROKEN < iAction_of h f
                              \<and> iAction_of h f < INSTALLSTATE_LOCAL)
                   (rows (view h)))]
     \<and> (\<forall>f. snd (field_Condition (hRecord f)) = []
            \<longrightarrow> MsiEvaluateCondition h [] = MSICONDITION_NONE \<longrightarrow> condition_true h f)"
proof -
  from EvaluateTAPInterfaces_saved [OF opened contract success] obtain w' l where
    res: "EvaluateTAPInterfaces plat h w = Some (ERROR_SUCCESS, w')"
    and calls: "calls w' = calls w @ l"
    and saved: "saved_seqs l = [planned_install_seq h, planned_uninstall_seq h]"
    by blast
  have inst: "planned_install_seq h =
      msica_op_create_bool msica_op_rollback_enable 0 (\<not> rollback_disabled_by_property h)
        # map create_op
            (filter (\<lambda>f. INSTALLSTATE_LOCAL \<le> iAction_of h f \<and> condition_true h f)
               (rows (view h)))"
    by (simp add: planned_install_seq_def rollback_op_def enable_rollback_flag
        to_be_installed_def)
  have uninst: "planned_uninstall_seq h =
      msica_op_create_bool msica_op_rollback_enable 0 (\<not> rollback_disabled_by_property h)
        # map delete_op
            (filter (\<lambda>f. INSTALLSTATE_BROKEN < iAction_of h f
                          \<and> iAction_of h f < INSTALLSTATE_LOCAL)
               (rows (view h)))"
    by (simp add: planned_uninstall_seq_def rollback_op_def enable_rollback_flag
        to_be_removed_def [abs_def])
  have cond: "\<forall>f. snd (field_Condition (hRecord f)) = []
      \<longrightarrow> MsiEvaluateCondition h [] = MSICONDITION_NONE \<longrightarrow> condition_true h f"
    by (simp add: condition_true_def condition_value_def)
  show ?thesis
    by (rule exI [of _ w'], rule exI [of _ l], intro conjI)
      (rule res calls saved [unfolded inst uninst] cond)+
qed

lemma failed_write_cleanup:
  assumes opened: "view_opened h"
    and loop: "fetch_loop h (view h) (exec_seq_init (enable_rollback h)) = (ERROR_SUCCESS, exec_seq)"
    and contract: "GetTempFileName_contract plat"
  shows "\<exists>e names w1 w'.
      write_sequence_files plat [0 ..< length szActionNames] exec_seq (\<lambda>i. []) w
        = Some (e, names, w1)
      \<and> EvaluateTAPInterfaces plat h w = Some (e, w')
      \<and> dom (files w1) \<subseteq> dom (files w) \<union> ({names 0, names 1} - {[]})
      \<and> (e \<noteq> ERROR_SUCCESS \<longrightarrow>
           calls w' = calls w1 @ map Call_DeleteFile (filter (\<lambda>n. n \<noteq> []) [names 1, names 0])
           \<and> ((\<forall>p. \<not> DeleteFile_fails plat p) \<longrightarrow> dom (files w') \<subseteq> dom (files w)))"
proof -
  from write_sequence_files_frame [OF contract, of "[0, 1]" exec_seq "\<lambda>i. []" w]
  obtain e names w1 where
    wr: "write_sequence_files plat [0, 1] exec_seq (\<lambda>i. []) w = Some (e, names, w1)"
    and dom1: "dom (files w1) \<subseteq> dom (files w) \<union> {names i | i. i \<in> set [0, 1] \<and> names i \<noteq> []}"
    by auto
  define N where "N = {names i | i. i \<in> set [0::nat, 1] \<and> names i \<noteq> []}"
  have N: "N = {names 0, names 1} - {[]}"
    unfolding N_def by auto
  let ?w' = "if e \<noteq> ERROR_SUCCESS then delete_sequence_files plat [1, 0] names w1 else w1"
  note res = EvaluateTAPInterfaces_write_phase [OF opened loop wr]
  note del = delete_sequence_files_effect [of plat "[1, 0]" names w1]
  have "e \<noteq> ERROR_SUCCESS \<longrightarrow>
      calls ?w' = calls w1 @ map Call_DeleteFile (filter (\<lambda>n. n \<noteq> []) [names 1, names 0])"
    using del by simp
  moreover have "e \<noteq> ERROR_SUCCESS \<longrightarrow> (\<forall>p. \<not> DeleteFile_fails plat p)
      \<longrightarrow> dom (files ?w') \<subseteq> dom (files w)"
  proof (intro impI)
    assume e: "e \<noteq> ERROR_SUCCESS" and rel: "\<forall>p. \<not> DeleteFile_fails plat p"
    have "{names j | j. j \<in> set [1::nat, 0] \<and> names j \<noteq> []} = N"
      unfolding N_def by auto
    with del rel have "dom (files (delete_sequence_files plat [1, 0] names w1)) = dom (files w1) - N"
      by simp
    moreover from dom1 have "dom (files w1) \<subseteq> dom (files w) \<union> N" unfolding N_def .
    ultimately show "dom (files ?w') \<subseteq> dom (files w)" using e by auto
  qed
  moreover from dom1 have "dom (files w1) \<subseteq> dom (files w) \<union> ({names 0, names 1} - {[]})"
    unfolding N_def [symmetric] N .
  ultimately show ?thesis using wr res by (auto simp: action_indices)
qed

lemma szName_values:
  "szName MSICA_CLEANUP_ACTION_COMMIT = ''Commit''"
  "szName MSICA_CLEANUP_ACTION_ROLLBACK = ''Rollback''"
  by (simp_all add: szName_def openvpnmsica_cleanup_action_seqs_def
      MSICA_CLEANUP_ACTION_COMMIT_def MSICA_CLEANUP_ACTION_ROLLBACK_def)

lemma set_cleanup_properties_code:
  assumes "length name \<le> MAX_PATH"
  shows "\<exists>w1. set_cleanup_properties plat szProperty name cleanup_actions w =
      Some (if MsiSetProperty_error plat (szProperty @ ''Commit'') \<noteq> ERROR_SUCCESS
            then MsiSetProperty_error plat (szProperty @ ''Commit'')
            else MsiSetProperty_error plat (szProperty @ ''Rollback''), w1)
    \<and> files w1 = files w"
  using setup_filename_ex_fits [OF assms]
  by (simp add: cleanup_actions_eq szName_values MsiSetProperty_def Let_def log_call_def)

lemma setup_sequence_filename_code:
  assumes contract: "GetTempFileName_contract plat"
  shows "\<exists>w1. openvpnmsica_setup_sequence_filename plat szProperty w =
      Some (setup_error plat szProperty (files w), setup_buffer plat szProperty (files w), w1)
    \<and> (setup_error plat szProperty (files w) = ERROR_SUCCESS \<longrightarrow>
         files w1 = (files w)(setup_buffer plat szProperty (files w) \<mapsto> []))"
proof -
  obtain e1 b1 where tp: "GetTempPath_reply plat = (e1, b1)"
    by (cases "GetTempPath_reply plat") auto
  obtain e2 n2 where tf: "GetTempFileName_reply plat b1 szProperty (files w) = (e2, n2)"
    by (cases "GetTempFileName_reply plat b1 szProperty (files w)") auto
  show ?thesis
  proof (cases "e1 = ERROR_SUCCESS \<and> e2 = ERROR_SUCCESS \<and> MsiSetProperty_error plat szProperty = ERROR_SUCCESS")
    case False
    with tp tf show ?thesis
      by (auto simp: openvpnmsica_setup_sequence_filename_def setup_error_def setup_buffer_def
          GetTempFileName_def MsiSetProperty_def Let_def)
  next
    case True
    from contract tf True have "length n2 \<le> MAX_PATH"
      unfolding GetTempFileName_contract_def by (metis fst_conv snd_conv)
    let ?w2 = "snd (snd (GetTempFileName plat b1 szProperty w))"
    let ?w3 = "snd (MsiSetProperty plat szProperty n2 ?w2)"
    let ?e = "if MsiSetProperty_error plat (szProperty @ ''Commit'') \<noteq> ERROR_SUCCESS
            then MsiSetProperty_error plat (szProperty @ ''Commit'')
            else MsiSetProperty_error plat (szProperty @ ''Rollback'')"
    from set_cleanup_properties_code [OF \<open>length n2 \<le> MAX_PATH\<close>, of plat szProperty ?w3]
    obtain w4 where
      sc: "set_cleanup_properties plat szProperty n2 cleanup_actions ?w3 = Some (?e, w4)"
      and f4: "files w4 = files ?w3"
      by blast
    have f3: "files ?w3 = (files w)(n2 \<mapsto> [])"
      using tf True by (simp add: GetTempFileName_def MsiSetProperty_def Let_def log_call_def)
    have run: "openvpnmsica_setup_sequence_filename plat szProperty w = Some (?e, n2, w4)"
      using tp tf True sc
      by (simp add: openvpnmsica_setup_sequence_filename_def GetTempFileName_def
          MsiSetProperty_def Let_def log_call_def del: set_cleanup_properties.simps)
    have err: "setup_error plat szProperty (files w) = ?e"
      using tp tf True by (simp add: setup_error_def)
    have buf: "setup_buffer plat szProperty (files w) = n2"
      using tp tf True by (simp add: setup_buffer_def)
    from run f4 f3 show ?thesis
      unfolding err buf by simp
  qed
qed

lemma write_sequence_files_step:
  assumes contract: "GetTempFileName_contract plat"
  shows "(journal_error plat (szActionNames ! i) (exec_seq i) (files w) \<noteq> ERROR_SUCCESS \<longrightarrow>
        (\<exists>w1. write_sequence_files plat (i # is) exec_seq names w =
           Some (journal_error plat (szActionNames ! i) (exec_seq i) (files w),
                 names(i := setup_buffer plat (szActionNames ! i) (files w)), w1)))
     \<and> (journal_error plat (szActionNames ! i) (exec_seq i) (files w) = ERROR_SUCCESS \<longrightarrow>
        (\<exists>w3. files w3 = journal_written plat (szActionNames ! i) (exec_seq i) (files w)
           \<and> write_sequence_files plat (i # is) exec_seq names w =
               write_sequence_files plat is exec_seq
                 (names(i := setup_buffer plat (szActionNames ! i) (files w))) w3))"
proof -
  let ?p = "szActionNames ! i"
  let ?n = "setup_buffer plat ?p (files w)"
  from setup_sequence_filename_code [OF contract, of ?p w] obtain w1 where
    su: "openvpnmsica_setup_sequence_filename plat ?p w = Some (setup_error plat ?p (files w), ?n, w1)"
    and f1: "setup_error plat ?p (files w) = ERROR_SUCCESS \<longrightarrow> files w1 = (files w)(?n \<mapsto> [])"
    by blast
  show ?thesis
  proof (cases "setup_error plat ?p (files w) = ERROR_SUCCESS")
    case False
    with su show ?thesis by (simp add: journal_error_def)
  next
    case True
    with f1 have f1': "files w1 = (files w)(?n \<mapsto> [])" by simp
    show ?thesis
    proof (cases "persist_error plat (exec_seq i) ?n = ERROR_SUCCESS")
      case False
      with su True show ?thesis
        by (auto simp: journal_error_def persist_error_def CreateFile_always_def seq_save_def
            Let_def log_call_def case_prod_beta)
    next
      case ok: True
      let ?w3 = "snd (seq_save plat (exec_seq i) ?n (snd (CreateFile_always plat ?n w1)))"
      have "files ?w3 = journal_written plat ?p (exec_seq i) (files w)"
        using f1' by (simp add: journal_written_def CreateFile_always_def seq_save_def
            Let_def log_call_def case_prod_beta)
      moreover have "write_sequence_files plat (i # is) exec_seq names w =
          write_sequence_files plat is exec_seq (names(i := ?n)) ?w3"
        using su True ok
        by (simp add: persist_error_def CreateFile_always_def seq_save_def
            Let_def log_call_def case_prod_beta split: if_splits)
      ultimately show ?thesis using True ok by (auto simp: journal_error_def)
    qed
  qed
qed

lemma write_sequence_files_code:
  assumes contract: "GetTempFileName_contract plat"
    and e0: "e0 = journal_error plat ''InstallTAPInterfaces'' (exec_seq 0) (files w)"
    and n0: "n0 = setup_buffer plat ''InstallTAPInterfaces'' (files w)"
    and e1: "e1 = journal_error plat ''UninstallTAPInterfaces'' (exec_seq 1)
                    (journal_written plat ''InstallTAPInterfaces'' (exec_seq 0) (files w))"
    and n1: "n1 = setup_buffer plat ''UninstallTAPInterfaces''
                    (journal_written plat ''InstallTAPInterfaces'' (exec_seq 0) (files w))"
  shows "\<exists>names w1. write_sequence_files plat [0, 1] exec_seq (\<lambda>i. []) w
        = Some (if e0 \<noteq> ERROR_SUCCESS then e0 else e1, names, w1)
      \<and> names 0 = n0 \<and> names 1 = (if e0 \<noteq> ERROR_SUCCESS then [] else n1)"
proof -
  have names0: "szActionNames ! 0 = ''InstallTAPInterfaces''"
    and names1: "szActionNames ! 1 = ''UninstallTAPInterfaces''"
    by (simp_all add: szActionNames_def)
  note step0 = write_sequence_files_step [OF contract, of 0 exec_seq w "[1]" "\<lambda>i. []",
      unfolded names0, folded e0 n0]
  show ?thesis
  proof (cases "e0 = ERROR_SUCCESS")
    case False
    with step0 show ?thesis by auto
  next
    case True
    with step0 obtain w3 where
      f3: "files w3 = journal_written plat ''InstallTAPInterfaces'' (exec_seq 0) (files w)"
      and eq: "write_sequence_files plat [0, 1] exec_seq (\<lambda>i. []) w =
          write_sequence_files plat [1] exec_seq ((\<lambda>i. [])(0 := n0)) w3"
      by blast
    note step1 = write_sequence_files_step [OF contract, of 1 exec_seq w3 "[]" "(\<lambda>i. [])(0 := n0)",
      unfolded names1 f3, folded e1 n1]
    show ?thesis
    proof (cases "e1 = ERROR_SUCCESS")
      case False
      with step1 eq True show ?thesis by auto
    next
      case e1s: True
      with step1 obtain w4 where
        "write_sequence_files plat [1] exec_seq ((\<lambda>i. [])(0 := n0)) w3 =
          write_sequence_files plat [] exec_seq ((\<lambda>i. [])(0 := n0, 1 := n1)) w4"
        by blast
      with eq True e1s show ?thesis by simp
    qed
  qed
qed

subsection \<open>C7: a plan that cannot be saved\<close>

text \<open>
  C7: planning has reached the end of the loop with the sequences \<open>exec_seq\<close>.
  Let \<open>e0\<close> be the first error met when the install sequence file is persisted
  (\<^verbatim>\<open>GetTempPath\<close>, \<^verbatim>\<open>GetTempFileName\<close>, \<^verbatim>\<open>MsiSetProperty\<close>, \<^verbatim>\<open>CreateFile\<close> or the save),
  \<open>n0\<close> the name it is given, and \<open>e1\<close> and \<open>n1\<close> the same for the uninstall sequence
  file, once the first file has been written. If one of the two fails, then
  \<^item> \<^verbatim>\<open>EvaluateTAPInterfaces\<close> returns the code of the first failure, \<open>e0\<close> if it is
    not \<open>ERROR_SUCCESS\<close> and \<open>e1\<close> otherwise;
  \<^item> the files created before the failure are among the names given;
  \<^item> the calls after the failure are the calls of \<^verbatim>\<open>DeleteFile\<close> on every name given
    that is not empty, the last first;
  \<^item> so no file exists afterwards that did not exist before, unless a \<^verbatim>\<open>DeleteFile\<close>
    fails.
\<close>

theorem C7_failed_plan_leaves_no_file:
  fixes plat :: "'x platform"
  assumes opened: "view_opened h"
    and loop: "fetch_loop h (view h) (exec_seq_init (enable_rollback h)) = (ERROR_SUCCESS, exec_seq)"
    and contract: "GetTempFileName_contract plat"
    and e0: "e0 = journal_error plat ''InstallTAPInterfaces'' (exec_seq 0) (files w)"
    and n0: "n0 = setup_buffer plat ''InstallTAPInterfaces'' (files w)"
    and e1: "e1 = journal_error plat ''UninstallTAPInterfaces'' (exec_seq 1)
                    (journal_written plat ''InstallTAPInterfaces'' (exec_seq 0) (files w))"
    and n1: "n1 = setup_buffer plat ''UninstallTAPInterfaces''
                    (journal_written plat ''InstallTAPInterfaces'' (exec_seq 0) (files w))"
    and failed: "e0 \<noteq> ERROR_SUCCESS \<or> e1 \<noteq> ERROR_SUCCESS"
  shows "\<exists>(w1 :: 'x world) w'.
      EvaluateTAPInterfaces plat h w = Some (if e0 \<noteq> ERROR_SUCCESS then e0 else e1, w')
      \<and> dom (files w1) \<subseteq> dom (files w) \<union> ({n0, n1} - {[]})
      \<and> calls w' = calls w1 @ map Call_DeleteFile
           (filter (\<lambda>n. n \<noteq> []) (if e0 \<noteq> ERROR_SUCCESS then [n0] else [n1, n0]))
      \<and> ((\<forall>p. \<not> DeleteFile_fails plat p) \<longrightarrow> dom (files w') \<subseteq> dom (files w))"
proof -
  from failed_write_cleanup [OF opened loop contract, of w] obtain e names w1 w' where
    wr: "write_sequence_files plat [0, 1] exec_seq (\<lambda>i. []) w = Some (e, names, w1)"
    and res: "EvaluateTAPInterfaces plat h w = Some (e, w')"
    and dom1: "dom (files w1) \<subseteq> dom (files w) \<union> ({names 0, names 1} - {[]})"
    and cleanup: "e \<noteq> ERROR_SUCCESS \<longrightarrow>
           calls w' = calls w1 @ map Call_DeleteFile (filter (\<lambda>n. n \<noteq> []) [names 1, names 0])
           \<and> ((\<forall>p. \<not> DeleteFile_fails plat p) \<longrightarrow> dom (files w') \<subseteq> dom (files w))"
    unfolding action_indices by blast
  from write_sequence_files_code [OF contract e0 n0 e1 n1] wr
  have e: "e = (if e0 \<noteq> ERROR_SUCCESS then e0 else e1)"
    and nm: "names 0 = n0" "names 1 = (if e0 \<noteq> ERROR_SUCCESS then [] else n1)"
    by auto
  from failed e have ne: "e \<noteq> ERROR_SUCCESS" by auto
  have d: "dom (files w1) \<subseteq> dom (files w) \<union> ({n0, n1} - {[]})"
    using dom1 nm by (auto split: if_splits)
  have c: "calls w' = calls w1 @ map Call_DeleteFile
      (filter (\<lambda>n. n \<noteq> []) (if e0 \<noteq> ERROR_SUCCESS then [n0] else [n1, n0]))"
    using cleanup ne nm by simp
  have f: "(\<forall>p. \<not> DeleteFile_fails plat p) \<longrightarrow> dom (files w') \<subseteq> dom (files w)"
    using cleanup ne by simp
  show ?thesis
    by (rule exI [of _ w1], rule exI [of _ w'], intro conjI) (rule res [unfolded e] d c f)+
qed

lemmas planning_example_defs = example_fetch_def example_planning_def row_A_def row_B_def
  row_C_def row_bad_condition_def row_cancelled_def IDOK_def IDCANCEL_def
  INSTALLSTATE_ABSENT_def INSTALLSTATE_LOCAL_def INSTALLSTATE_BROKEN_def
  ERROR_SUCCESS_def ERROR_NO_MORE_ITEMS_def ERROR_INVALID_FIELD_def ERROR_INSTALL_USEREXIT_def
  MSICA_INTERFACE_TICK_SIZE_def

lemmas planning_eval_defs = evaluate_record_def add_ticks_def exec_seq_init_def szActionNames_def
  upt_rec msica_op_seq_add_tail_def enable_rollback_def ttoi_def totlower_def isspace_def
  isdigit_def

lemma example_view_opened: "view_opened (example_planning fs)"
  by (simp add: view_opened_def example_planning_def ERROR_SUCCESS_def)

lemma example_contract: "GetTempFileName_contract example_platform"
  by (auto simp: GetTempFileName_contract_def example_platform_def MAX_PATH_def)

lemmas maintenance_example_defs = example_maintenance_def row_K_def INSTALLSTATE_UNKNOWN_def

subsection \<open>C3: the entries of the uninstall sequence\<close>

text \<open>
  C3: an entry is added to the uninstall sequence (\<^verbatim>\<open>exec_seq[1]\<close>) only if the component
  of the record is currently present. The code reads the installed state of the component
  and never examines it: the test is on the action state alone. The component of the
  record \<open>B\<close> is not installed (its installed state is \<open>INSTALLSTATE_ABSENT\<close>) and its
  action state is \<open>INSTALLSTATE_ABSENT\<close>: the deletion of the interface \<open>B\<close> is added
  to the uninstall sequence all the same.
\<close>

theorem C3_entry_for_absent_component:
  "iInstalled_of (example_planning [row_B]) row_B = INSTALLSTATE_ABSENT
   \<and> iAction_of (example_planning [row_B]) row_B = INSTALLSTATE_ABSENT
   \<and> \<not> spec_currently_present (iInstalled_of (example_planning [row_B]) row_B)
   \<and> evaluate_record (example_planning [row_B]) row_B (exec_seq_init True)
       = (ERROR_SUCCESS,
          (exec_seq_init True)
            (1 := [msica_op_create_bool msica_op_rollback_enable 0 True,
                   msica_op_create_string msica_op_tap_interface_delete_by_name 16384 ''B'']))"
  by (simp add: spec_currently_present_def iInstalled_of_def iAction_of_def
      planning_example_defs planning_eval_defs)

text \<open>
  C8, witness: the condition \<open>?\<close> of the second record cannot be evaluated.
\<close>

theorem C8_condition_evaluation_fails_witness:
  "EvaluateTAPInterfaces example_platform (example_planning [row_A, row_bad_condition, row_B])
       example_world = Some (ERROR_INVALID_FIELD, example_world)"
proof -
  let ?h = "example_planning [row_A, row_bad_condition, row_B]"
  have before: "fetch_loop ?h [row_A] (exec_seq_init (enable_rollback ?h))
      = (ERROR_SUCCESS, snd (fetch_loop ?h [row_A] (exec_seq_init (enable_rollback ?h))))"
    by (simp add: planning_example_defs planning_eval_defs)
  have row: "record_read ?h row_bad_condition" "to_be_installed ?h row_bad_condition"
    "condition_read row_bad_condition" "condition_value ?h row_bad_condition = MSICONDITION_ERROR"
    by (simp_all add: row_defs planning_example_defs)
  have fetched: "\<forall>g\<in>set [row_A]. MsiViewFetch g = ERROR_SUCCESS"
    "MsiViewFetch row_bad_condition = ERROR_SUCCESS"
    by (simp_all add: planning_example_defs)
  have view: "view ?h = [row_A] @ row_bad_condition # [row_B]"
    by (simp add: example_planning_def)
  show ?thesis
    by (rule conjunct1 [OF C8_condition_evaluation_fails
          [OF example_view_opened view fetched(1) before fetched(2) row]])
qed

text \<open>
  C9, witness: the installer answers \<open>IDCANCEL\<close> while the second record is processed.
\<close>

theorem C9_user_cancels_witness:
  "EvaluateTAPInterfaces example_platform (example_planning [row_A, row_cancelled, row_B])
       example_world = Some (ERROR_INSTALL_USEREXIT, example_world)"
proof -
  let ?h = "example_planning [row_A, row_cancelled, row_B]"
  have before: "fetch_loop ?h [row_A] (exec_seq_init (enable_rollback ?h))
      = (ERROR_SUCCESS, snd (fetch_loop ?h [row_A] (exec_seq_init (enable_rollback ?h))))"
    by (simp add: planning_example_defs planning_eval_defs)
  have row: "record_read ?h row_cancelled"
    "to_be_removed ?h row_cancelled
     \<or> (to_be_installed ?h row_cancelled \<and> condition_read row_cancelled
        \<and> condition_true ?h row_cancelled)"
    "MsiProcessMessage row_cancelled = IDCANCEL"
    by (simp_all add: row_defs planning_example_defs)
  have fetched: "\<forall>g\<in>set [row_A]. MsiViewFetch g = ERROR_SUCCESS"
    "MsiViewFetch row_cancelled = ERROR_SUCCESS"
    by (simp_all add: planning_example_defs)
  have view: "view ?h = [row_A] @ row_cancelled # [row_B]"
    by (simp add: example_planning_def)
  show ?thesis
    by (rule conjunct1 [OF C9_user_cancels
          [OF example_view_opened view fetched(1) before fetched(2) row]])
qed

lemmas write_eval_defs = EvaluateTAPInterfaces_def openvpnmsica_setup_sequence_filename_def
  GetTempFileName_def MsiSetProperty_def CreateFile_always_def seq_save_def DeleteFile_def
  log_call_def cleanup_actions_def setup_filename_ex_def stprintf_s_def szName_def
  PathFindExtension_def format_filename_ex_def szSuffix_def openvpnmsica_cleanup_action_seqs_def
  MAX_PATH_def MSICA_CLEANUP_ACTION_COUNT_def

lemma example_ok_contract: "GetTempFileName_contract example_platform_ok"
  by (auto simp: GetTempFileName_contract_def example_platform_ok_def example_platform_def
      MAX_PATH_def)

text \<open>
  C4, as stated: one creation for each record whose component is going to be present and
  whose condition holds. The component of the record \<open>K\<close> is installed and stays so, and
  the record has no condition: the install sequence saved has no creation for it.
\<close>

theorem C4_kept_component_counterexample:
  "spec_going_to_be_present (iInstalled_of (example_maintenance [row_K]) row_K)
       (iAction_of (example_maintenance [row_K]) row_K)
   \<and> condition_true (example_maintenance [row_K]) row_K
   \<and> (\<exists>w'. EvaluateTAPInterfaces example_platform_ok (example_maintenance [row_K])
                example_world = Some (ERROR_SUCCESS, w')
           \<and> saved_seqs (calls w') =
               [[msica_op_create_bool msica_op_rollback_enable 0 False],
                [msica_op_create_bool msica_op_rollback_enable 0 False]])"
proof -
  let ?h = "example_maintenance [row_K]"
  have opened: "view_opened ?h"
    by (simp add: view_opened_def example_maintenance_def example_planning_def ERROR_SUCCESS_def)
  have success: "map_option fst (EvaluateTAPInterfaces example_platform_ok ?h example_world)
      = Some ERROR_SUCCESS"
    by (simp add: write_eval_defs planning_eval_defs planning_example_defs
        maintenance_example_defs example_platform_ok_def example_platform_def example_world_def)
  have seqs: "planned_install_seq ?h = [msica_op_create_bool msica_op_rollback_enable 0 False]"
    "planned_uninstall_seq ?h = [msica_op_create_bool msica_op_rollback_enable 0 False]"
    by (simp_all add: planned_install_seq_def planned_uninstall_seq_def rollback_op_def rows_def
        row_defs planning_example_defs maintenance_example_defs planning_eval_defs)
  have present: "spec_going_to_be_present (iInstalled_of ?h row_K) (iAction_of ?h row_K)"
    "condition_true ?h row_K"
    by (simp_all add: spec_going_to_be_present_def spec_currently_present_def row_defs
        planning_example_defs maintenance_example_defs)
  from EvaluateTAPInterfaces_saved [OF opened example_ok_contract success] present
  show ?thesis
    unfolding seqs by (auto simp: example_world_def)
qed

text \<open>
  C4, witness: the plan for the records \<open>A\<close>, \<open>K\<close> and \<open>C\<close> in the maintenance session.
\<close>

theorem C4_planned_journals_witness:
  "\<exists>w' l. EvaluateTAPInterfaces example_platform_ok (example_maintenance [row_A, row_K, row_C])
              example_world = Some (ERROR_SUCCESS, w')
     \<and> calls w' = l
     \<and> saved_seqs l =
         [[msica_op_create_bool msica_op_rollback_enable 0 False,
           msica_op_create_string msica_op_tap_interface_create 16384 ''A''],
          [msica_op_create_bool msica_op_rollback_enable 0 False,
           msica_op_create_string msica_op_tap_interface_delete_by_name 16384 ''C'']]"
proof -
  let ?h = "example_maintenance [row_A, row_K, row_C]"
  have opened: "view_opened ?h"
    by (simp add: view_opened_def example_maintenance_def example_planning_def ERROR_SUCCESS_def)
  have success: "map_option fst (EvaluateTAPInterfaces example_platform_ok ?h example_world)
      = Some ERROR_SUCCESS"
    by (simp add: write_eval_defs planning_eval_defs planning_example_defs
        maintenance_example_defs example_platform_ok_def example_platform_def example_world_def)
  have rb: "rollback_disabled_by_property ?h"
    by (simp add: rollback_disabled_by_property_def planning_example_defs
        maintenance_example_defs planning_eval_defs)
  have rws: "rows (view ?h) = [row_A, row_K, row_C]"
    by (simp add: rows_def planning_example_defs maintenance_example_defs)
  have sel: "filter (\<lambda>f. INSTALLSTATE_LOCAL \<le> iAction_of ?h f \<and> condition_true ?h f)
        [row_A, row_K, row_C] = [row_A]"
    "filter (\<lambda>f. INSTALLSTATE_BROKEN < iAction_of ?h f \<and> iAction_of ?h f < INSTALLSTATE_LOCAL)
        [row_A, row_K, row_C] = [row_C]"
    by (simp_all add: row_defs planning_example_defs maintenance_example_defs)
  have ops: "create_op row_A = msica_op_create_string msica_op_tap_interface_create 16384 ''A''"
    "delete_op row_C = msica_op_create_string msica_op_tap_interface_delete_by_name 16384 ''C''"
    by (simp_all add: row_defs planning_example_defs)
  from C4_planned_journals [OF opened example_ok_contract success]
  show ?thesis
    unfolding rws sel by (auto simp: ops rb example_world_def)
qed

text \<open>
  C7, witness: the first sequence file is persisted, the second one, \<open>T/Uni1.tmp\<close>,
  cannot be created; planning returns \<open>ERROR_ACCESS_DENIED\<close> and leaves no file behind.
\<close>

theorem C7_failed_plan_leaves_no_file_witness:
  "\<exists>w'. EvaluateTAPInterfaces example_platform (example_planning [row_A, row_B, row_C])
              example_world = Some (ERROR_ACCESS_DENIED, w')
     \<and> dom (files w') \<subseteq> dom (files example_world)"
proof -
  let ?h = "example_planning [row_A, row_B, row_C]"
  let ?seq = "snd (fetch_loop ?h (view ?h) (exec_seq_init (enable_rollback ?h)))"
  have loop: "fetch_loop ?h (view ?h) (exec_seq_init (enable_rollback ?h)) = (ERROR_SUCCESS, ?seq)"
    by (simp add: planning_example_defs planning_eval_defs)
  have e0: "journal_error example_platform ''InstallTAPInterfaces'' (?seq 0) (files example_world)
      = ERROR_SUCCESS"
    by (simp add: journal_error_def setup_error_def setup_buffer_def persist_error_def
        example_platform_def)
  have e1: "journal_error example_platform ''UninstallTAPInterfaces'' (?seq 1)
        (journal_written example_platform ''InstallTAPInterfaces'' (?seq 0) (files example_world))
      = ERROR_ACCESS_DENIED"
    by (simp add: journal_error_def setup_error_def setup_buffer_def persist_error_def
        example_platform_def ERROR_ACCESS_DENIED_def ERROR_SUCCESS_def)
  have rel: "\<forall>p. \<not> DeleteFile_fails example_platform p"
    by (simp add: example_platform_def)
  have denied: "ERROR_ACCESS_DENIED \<noteq> ERROR_SUCCESS"
    by (simp add: ERROR_ACCESS_DENIED_def ERROR_SUCCESS_def)
  from C7_failed_plan_leaves_no_file [where w = example_world, OF example_view_opened loop
      example_contract refl refl refl refl, unfolded e0 e1] rel denied
  show ?thesis by auto
qed

end
